theory Spec2Isabelle
  imports Complex_Main "HOL-Library.Word"
begin

unbundle bit_operations_syntax

section \<open>netwatch: history ring, collection, panel parsing and plotting\<close>

text \<open>
  A shallow embedding of \<^verbatim>\<open>main.go\<close>. The drawing surface (SDL) is a log of the
  primitive operations issued to it, the outcome of the non-blocking channel receive of
  the render loop is an input of the step (\<open>Some v\<close>: a sample was ready, \<open>None\<close>: the
  \<^verbatim>\<open>default\<close> branch), and the end of the process (\<^verbatim>\<open>errbox\<close>, which shows a
  message and calls \<^verbatim>\<open>os.Exit(1)\<close>, or \<^verbatim>\<open>os.Exit(0)\<close>) is a value of type
  \<open>exit\<close>.
\<close>

subsection \<open>Machine types\<close>

type_synonym int32 = "32 word"
type_synonym uint8 = "8 word"

text \<open>
  \<^verbatim>\<open>float64\<close>: not-a-number, the two infinities and the finite values. The two zeros
  are one value \<open>Fin 0\<close>: the program never divides by a negative zero (its divisors are
  \<^verbatim>\<open>float64(i)\<close> of an integer and \<^verbatim>\<open>maxv\<close>, which starts at \<open>+0\<close> and is only
  replaced by a value strictly greater than itself). Rounding of an arithmetic result
  to a representable value is the machine's \<open>rnd\<close>, a parameter of every function that
  computes; a conversion to \<^verbatim>\<open>int32\<close> of a value that does not fit is implementation
  defined in Go and is the machine's \<open>cvt\<close>.
\<close>

datatype f64 = NaN | PInf | NInf | Fin real

record machine =
  rnd :: "real \<Rightarrow> f64"
  cvt :: "f64 \<Rightarrow> int32"

text \<open>The comparison \<^verbatim>\<open><\<close> of IEEE 754: false whenever an operand is not a number.\<close>

fun flt :: "f64 \<Rightarrow> f64 \<Rightarrow> bool" where
  "flt NaN _ = False"
| "flt _ NaN = False"
| "flt _ NInf = False"
| "flt PInf _ = False"
| "flt NInf _ = True"
| "flt (Fin a) PInf = True"
| "flt (Fin a) (Fin b) = (a < b)"

definition fgt :: "f64 \<Rightarrow> f64 \<Rightarrow> bool" where
  "fgt a b = flt b a"

definition IsNaN :: "f64 \<Rightarrow> bool" where
  "IsNaN v = (v = NaN)"

fun fadd :: "machine \<Rightarrow> f64 \<Rightarrow> f64 \<Rightarrow> f64" where
  "fadd m NaN _ = NaN"
| "fadd m _ NaN = NaN"
| "fadd m PInf NInf = NaN"
| "fadd m NInf PInf = NaN"
| "fadd m PInf _ = PInf"
| "fadd m _ PInf = PInf"
| "fadd m NInf _ = NInf"
| "fadd m _ NInf = NInf"
| "fadd m (Fin a) (Fin b) = rnd m (a + b)"

definition finf :: "bool \<Rightarrow> f64" where
  "finf negative = (if negative then NInf else PInf)"

fun fmul :: "machine \<Rightarrow> f64 \<Rightarrow> f64 \<Rightarrow> f64" where
  "fmul m NaN _ = NaN"
| "fmul m _ NaN = NaN"
| "fmul m (Fin a) (Fin b) = rnd m (a * b)"
| "fmul m (Fin a) PInf = (if a = 0 then NaN else finf (a < 0))"
| "fmul m (Fin a) NInf = (if a = 0 then NaN else finf (0 < a))"
| "fmul m PInf (Fin b) = (if b = 0 then NaN else finf (b < 0))"
| "fmul m NInf (Fin b) = (if b = 0 then NaN else finf (0 < b))"
| "fmul m PInf PInf = PInf"
| "fmul m NInf NInf = PInf"
| "fmul m PInf NInf = NInf"
| "fmul m NInf PInf = NInf"

text \<open>Division; a zero divisor is the positive zero (see above).\<close>

fun fdiv :: "machine \<Rightarrow> f64 \<Rightarrow> f64 \<Rightarrow> f64" where
  "fdiv m NaN _ = NaN"
| "fdiv m _ NaN = NaN"
| "fdiv m (Fin a) (Fin b) =
     (if b = 0 then (if a = 0 then NaN else finf (a < 0)) else rnd m (a / b))"
| "fdiv m (Fin a) PInf = Fin 0"
| "fdiv m (Fin a) NInf = Fin 0"
| "fdiv m PInf (Fin b) = finf (b < 0)"
| "fdiv m NInf (Fin b) = finf (0 \<le> b)"
| "fdiv m PInf PInf = NaN"
| "fdiv m PInf NInf = NaN"
| "fdiv m NInf PInf = NaN"
| "fdiv m NInf NInf = NaN"

text \<open>\<^verbatim>\<open>float64(i)\<close> of an \<^verbatim>\<open>int32\<close>: exact. \<^verbatim>\<open>int32(x)\<close>: truncation towards zero
  when the result fits, the machine's choice otherwise.\<close>

definition float64 :: "int32 \<Rightarrow> f64" where
  "float64 i = Fin (of_int (sint i))"

definition trunc :: "real \<Rightarrow> int" where
  "trunc x = (if 0 \<le> x then \<lfloor>x\<rfloor> else \<lceil>x\<rceil>)"

definition int32 :: "machine \<Rightarrow> f64 \<Rightarrow> int32" where
  "int32 m x =
     (case x of
        Fin r \<Rightarrow> if - (2 ^ 31) \<le> trunc r \<and> trunc r < 2 ^ 31 then word_of_int (trunc r)
                 else cvt m x
      | _ \<Rightarrow> cvt m x)"

text \<open>The builtins \<^verbatim>\<open>min\<close> and \<^verbatim>\<open>max\<close> on \<^verbatim>\<open>int32\<close>: signed.\<close>

definition min32 :: "int32 \<Rightarrow> int32 \<Rightarrow> int32" where
  "min32 a b = (if sint a \<le> sint b then a else b)"

definition max32 :: "int32 \<Rightarrow> int32 \<Rightarrow> int32" where
  "max32 a b = (if sint a \<le> sint b then b else a)"

subsection \<open>Package variables\<close>

datatype Color = Color uint8 uint8 uint8 uint8

definition windowMargin :: int32 where "windowMargin = 5"
definition panelHeight :: int32 where "panelHeight = 45"
definition targetSize :: int32 where "targetSize = 90"
definition errColor :: Color where "errColor = Color 0xFF 0x64 0x64 0xFF"
definition plotColors :: "Color list" where
  "plotColors = [Color 0x00 0xFF 0x00 0xFF, Color 0x00 0x00 0xFF 0xFF, Color 0xFF 0x7F 0x00 0xFF]"

text \<open>The variables that \<^verbatim>\<open>main\<close> assigns: the window size (from the window
  created), the panel width and the two configurable colours.\<close>

record globals =
  windowWidth :: int32
  windowHeight :: int32
  panelWidth :: int32
  fg :: Color
  bg :: Color

definition init_globals :: globals where
  "init_globals =
     \<lparr> windowWidth = 180, windowHeight = 100,
       panelWidth = 180 - (windowMargin * 2),
       fg = Color 0xFF 0xFF 0xFF 0xFF, bg = Color 0x64 0x64 0x64 0xFF \<rparr>"

subsection \<open>The history ring (\<^verbatim>\<open>container/ring\<close>)\<close>

text \<open>
  A ring of \<open>n\<close> elements is the list of its \<open>Value\<close>s and the index of the element a
  \<^verbatim>\<open>*Ring\<close> points to; an element never written holds \<^verbatim>\<open>nil\<close>, here \<open>None\<close>.
  \<^verbatim>\<open>ring.New(n)\<close> is the \<^verbatim>\<open>nil\<close> ring for \<open>n \<le> 0\<close>, here the ring with no slot.
\<close>

type_synonym sample = "f64 list"

record Ring =
  slots :: "sample option list"
  cursor :: nat

definition ring_New :: "int \<Rightarrow> Ring" where
  "ring_New n =
     (if n \<le> 0 then \<lparr> slots = [], cursor = 0 \<rparr>
      else \<lparr> slots = replicate (nat n) None, cursor = 0 \<rparr>)"

definition ring_Len :: "Ring \<Rightarrow> nat" where
  "ring_Len r = length (slots r)"

definition ring_set_Value :: "sample \<Rightarrow> Ring \<Rightarrow> Ring" where
  "ring_set_Value v r = r \<lparr> slots := (slots r)[cursor r := Some v] \<rparr>"

definition ring_Next :: "Ring \<Rightarrow> Ring" where
  "ring_Next r = r \<lparr> cursor := (cursor r + 1) mod length (slots r) \<rparr>"

text \<open>The values in the order \<^verbatim>\<open>r.Do\<close> visits them: forward, starting at \<open>r\<close>.\<close>

definition ring_Do_list :: "Ring \<Rightarrow> sample option list" where
  "ring_Do_list r = drop (cursor r) (slots r) @ take (cursor r) (slots r)"

definition ring_Do :: "Ring \<Rightarrow> (sample option \<Rightarrow> 's \<Rightarrow> 's) \<Rightarrow> 's \<Rightarrow> 's" where
  "ring_Do r f s = fold f (ring_Do_list r) s"

definition ring_ok :: "Ring \<Rightarrow> bool" where
  "ring_ok r = (cursor r < length (slots r))"

subsection \<open>Panels and the collection step of the render loop\<close>

record panel =
  ptyp :: string
  target :: string
  channel :: nat
  ring :: Ring

datatype panic = NilPointerDereference

text \<open>
  The \<^verbatim>\<open>select\<close> of the render loop. With a sample received, the sample is stored
  in the element the panel points to and the panel moves to the next element; the colour
  is \<^verbatim>\<open>fg\<close>. Otherwise nothing is written and the colour is \<^verbatim>\<open>errColor\<close>.
\<close>

definition collect :: "globals \<Rightarrow> panel \<Rightarrow> sample option \<Rightarrow> panic + (panel \<times> Color)" where
  "collect g p recv =
     (case recv of
        Some v \<Rightarrow>
          if slots (ring p) = [] then Inl NilPointerDereference
          else Inr (p \<lparr> ring := ring_Next (ring_set_Value v (ring p)) \<rparr>, fg g)
      | None \<Rightarrow> Inr (p, errColor))"

text \<open>The panel after a run of ticks, one receive outcome per tick.\<close>

fun collects :: "globals \<Rightarrow> panel \<Rightarrow> sample option list \<Rightarrow> panic + panel" where
  "collects g p [] = Inr p"
| "collects g p (recv # rest) =
     (case collect g p recv of
        Inl e \<Rightarrow> Inl e
      | Inr (p', c) \<Rightarrow> collects g p' rest)"

subsection \<open>Formatted text, errors and exit\<close>

text \<open>
  \<^verbatim>\<open>fmt.Errorf\<close> and \<^verbatim>\<open>fmt.Sprintf\<close> are kept as their format string and their
  arguments. \<^verbatim>\<open>errbox\<close> shows its message in a dialog and ends the process with
  status 1: \<open>Exit 1 msg\<close>. A process that has started the command line \<open>argv\<close> as a
  process of its own, released it and called \<^verbatim>\<open>os.Exit(0)\<close> is \<open>Detached argv\<close>.
\<close>

datatype error = Errorf string "arg list"
  and arg = Str string | Num f64 | Wrap error

datatype label = Text string | Sprintf string "arg list" | Error error

datatype exit = Exit int label | Detached "string list"

definition errbox :: "label \<Rightarrow> exit" where
  "errbox msg = Exit 1 msg"

subsection \<open>Panel parsing\<close>

text \<open>
  A probe gets the target and the channel and starts its producer; the three registered
  probes all return \<^verbatim>\<open>nil\<close>. The channel made for the \<open>i\<close>-th argument is the
  handle \<open>i\<close>.
\<close>

type_synonym probe = "string \<Rightarrow> nat \<Rightarrow> error option"

definition probes :: "string \<Rightarrow> probe option" where
  "probes = map_of
     [(''sine'', \<lambda>target c. None),
      (''lagsine'', \<lambda>target c. None),
      (''multi'', \<lambda>target c. None)]"

text \<open>\<^verbatim>\<open>strings.Split(s, sep)\<close> for a separator of one byte.\<close>

fun Split :: "string \<Rightarrow> char \<Rightarrow> string list" where
  "Split [] sep = [[]]"
| "Split (c # cs) sep =
     (if c = sep then [] # Split cs sep
      else (c # hd (Split cs sep)) # tl (Split cs sep))"

text \<open>The loop of \<^verbatim>\<open>parsePanels\<close> over the arguments, from index \<open>i\<close>.\<close>

fun parseArgs :: "globals \<Rightarrow> nat \<Rightarrow> string list \<Rightarrow> error + panel list" where
  "parseArgs g i [] = Inr []"
| "parseArgs g i (arg # rest) =
     (let tokens = Split arg CHR '':'' in
      if length tokens \<noteq> 2 then Inl (Errorf ''Could not parse panel: %q'' [Str arg])
      else
        case probes (tokens ! 0) of
          None \<Rightarrow> Inl (Errorf ''Unsupported panel type: %q'' [Str (tokens ! 0)])
        | Some p \<Rightarrow>
            (case p (tokens ! 1) i of
               Some err \<Rightarrow>
                 Inl (Errorf ''Error initializing %s: %w'' [Str (tokens ! 0), Wrap err])
             | None \<Rightarrow>
                 (case parseArgs g (Suc i) rest of
                    Inl e \<Rightarrow> Inl e
                  | Inr a \<Rightarrow>
                      Inr (\<lparr> ptyp = tokens ! 0, target = tokens ! 1, channel = i,
                             ring = ring_New (sint (panelWidth g - 2)) \<rparr> # a))))"

definition parsePanels :: "globals \<Rightarrow> string list \<Rightarrow> error + panel list" where
  "parsePanels g args =
     (if length args < 1 then Inl (Errorf ''No args specified'' [])
      else if length args > unat (NOT (0 :: uint8)) then
        Inl (Errorf ''Too many targets specified'' [])
      else parseArgs g 0 args)"

subsection \<open>Start-up: \<^verbatim>\<open>main\<close> up to the end of the colour options\<close>

text \<open>
  \<^verbatim>\<open>fmt.Sscanf(s, "%2x%2x%2x", &c.R, &c.G, &c.B)\<close> is a parameter: a scanner gives
  the values it stored, in order, and whether it reported an error; the count \<open>n\<close> it
  returns is the number of values stored.
\<close>

type_synonym scanner = "string \<Rightarrow> uint8 list \<times> bool"

definition store_RGB :: "Color \<Rightarrow> uint8 list \<Rightarrow> Color" where
  "store_RGB c vs =
     (case c of Color r g b a \<Rightarrow>
        Color (if 0 < length vs then vs ! 0 else r)
              (if 1 < length vs then vs ! 1 else g)
              (if 2 < length vs then vs ! 2 else b) a)"

text \<open>
  What the operating system answers: the error of \<^verbatim>\<open>os.Getwd\<close> and the error of
  \<^verbatim>\<open>cmd.Start\<close>, if any.
\<close>

record env =
  Getwd_error :: "error option"
  Start_error :: "error option"

text \<open>
  \<^verbatim>\<open>main\<close> from \<^verbatim>\<open>flag.Parse\<close> to the end of the colour options. The results of
  \<^verbatim>\<open>flag.Parse\<close> are inputs: the flag \<^verbatim>\<open>-f\<close> (\<open>foreground\<close>), the options
  \<^verbatim>\<open>-bg\<close> and \<^verbatim>\<open>-fg\<close> and the remaining arguments \<^verbatim>\<open>flag.Args()\<close>; \<open>arg0\<close> is
  \<^verbatim>\<open>os.Args[0]\<close> and \<open>rest\<close> is \<^verbatim>\<open>os.Args[1:]\<close>. Without \<^verbatim>\<open>-f\<close> the process
  starts itself again with \<^verbatim>\<open>-f\<close> before its arguments and exits with status 0; it
  reads neither the panel arguments nor the colours. SDL is initialised, and the render
  loop started, only after this part has returned a configuration.
\<close>

definition main ::
  "scanner \<Rightarrow> env \<Rightarrow> globals \<Rightarrow> string \<Rightarrow> string list \<Rightarrow> bool \<Rightarrow> string list \<Rightarrow> string \<Rightarrow> string
     \<Rightarrow> exit + (globals \<times> panel list)" where
  "main Sscanf env g arg0 rest foreground args bgColor fgColor =
     (if \<not> foreground then
        (case Getwd_error env of
           Some err \<Rightarrow> Inl (errbox (Sprintf ''Getcwd error: %s\<newline>'' [Wrap err]))
         | None \<Rightarrow>
             (case Start_error env of
                Some err \<Rightarrow> Inl (errbox (Sprintf ''Startup error: %s\<newline>'' [Wrap err]))
              | None \<Rightarrow> Inl (Detached (arg0 # ''-f'' # rest))))
      else
        (case parsePanels g args of
           Inl err \<Rightarrow> Inl (errbox (Error err))
         | Inr panels \<Rightarrow>
             (case (if length bgColor = 6 then
                      (case Sscanf bgColor of
                         (vs, err) \<Rightarrow>
                           if err \<or> length vs \<noteq> 3 then
                             Inl (errbox (Text ''Unable to parse bg background color''))
                           else Inr (g \<lparr> bg := store_RGB (bg g) vs \<rparr>))
                    else Inr g) of
                Inl e \<Rightarrow> Inl e
              | Inr g1 \<Rightarrow>
                  (case (if length fgColor = 6 then
                           (case Sscanf fgColor of
                              (vs, err) \<Rightarrow>
                                if err \<or> length vs \<noteq> 3 then
                                  Inl (errbox (Text ''Unable to parse fg foreground color''))
                                else Inr (g1 \<lparr> fg := store_RGB (fg g1) vs \<rparr>))
                         else Inr g1) of
                     Inl e \<Rightarrow> Inl e
                   | Inr g2 \<Rightarrow> Inr (g2, panels)))))"

text \<open>
  A scanner for concrete runs, after the scanning rules of package \<^verbatim>\<open>fmt\<close> on ASCII
  input: before each verb blanks are skipped (a newline is an error), then one or two
  hexadecimal digits are read; input left over is not an error.
\<close>

definition isSpace :: "char \<Rightarrow> bool" where
  "isSpace c = (c \<in> set [CHR '' '', CHR 0x09, CHR 0x0B, CHR 0x0C, CHR 0x0D])"

definition isHex :: "char \<Rightarrow> bool" where
  "isHex c = (c \<in> set ''0123456789aAbBcCdDeEfF'')"

definition hexval :: "char \<Rightarrow> uint8" where
  "hexval c =
     (let n = (of_char c :: nat) in
      if n \<le> 57 then of_nat (n - 48)
      else if n \<le> 70 then of_nat (n - 55)
      else of_nat (n - 87))"

fun SkipSpace :: "string \<Rightarrow> string option" where
  "SkipSpace [] = Some []"
| "SkipSpace (c # cs) =
     (if c = CHR 0x0A then None
      else if isSpace c then SkipSpace cs
      else Some (c # cs))"

definition scan2x :: "string \<Rightarrow> (uint8 \<times> string) option" where
  "scan2x s =
     (case SkipSpace s of
        None \<Rightarrow> None
      | Some [] \<Rightarrow> None
      | Some (c # cs) \<Rightarrow>
          if \<not> isHex c then None
          else
            (case cs of
               [] \<Rightarrow> Some (hexval c, [])
             | d # ds \<Rightarrow>
                 if isHex d then Some (16 * hexval c + hexval d, ds)
                 else Some (hexval c, cs)))"

definition Sscanf_2x2x2x :: scanner where
  "Sscanf_2x2x2x s =
     (case scan2x s of
        None \<Rightarrow> ([], True)
      | Some (r, s1) \<Rightarrow>
          (case scan2x s1 of
             None \<Rightarrow> ([r], True)
           | Some (g, s2) \<Rightarrow>
               (case scan2x s2 of
                  None \<Rightarrow> ([r, g], True)
                | Some (b, s3) \<Rightarrow> ([r, g, b], False))))"

subsection \<open>The renderer\<close>

datatype draw_op =
    DrawRect Color int32 int32 int32 int32
  | DrawText Color int32 int32 label
  | DrawLine Color int32 int32 int32 int32

record renderer =
  drawColor :: Color
  ops :: "draw_op list"

definition SetDrawColor :: "Color \<Rightarrow> renderer \<Rightarrow> renderer" where
  "SetDrawColor c rd = rd \<lparr> drawColor := c \<rparr>"

definition emit :: "draw_op \<Rightarrow> renderer \<Rightarrow> renderer" where
  "emit x rd = rd \<lparr> ops := ops rd @ [x] \<rparr>"

definition drawRect :: "int32 \<Rightarrow> int32 \<Rightarrow> int32 \<Rightarrow> int32 \<Rightarrow> renderer \<Rightarrow> renderer" where
  "drawRect x y w h rd = emit (DrawRect (drawColor rd) x y w h) rd"

definition drawLine :: "int32 \<Rightarrow> int32 \<Rightarrow> int32 \<Rightarrow> int32 \<Rightarrow> renderer \<Rightarrow> renderer" where
  "drawLine x1 y1 x2 y2 rd = emit (DrawLine (drawColor rd) x1 y1 x2 y2) rd"

definition drawText :: "Color \<Rightarrow> int32 \<Rightarrow> int32 \<Rightarrow> label \<Rightarrow> renderer \<Rightarrow> renderer" where
  "drawText color x y txt rd = emit (DrawText color x y txt) rd"

subsection \<open>\<^verbatim>\<open>plotRing\<close>: the statistics pass\<close>

text \<open>The variables of \<^verbatim>\<open>plotRing\<close> that the first traversal assigns; \<open>cnt\<close> is the
  counter \<^verbatim>\<open>i\<close>.\<close>

record vars =
  minv :: f64
  maxv :: f64
  lst :: f64
  tot :: f64
  cnt :: int32
  data :: sample

definition init_vars :: vars where
  "init_vars = \<lparr> minv = Fin 10000, maxv = Fin 0, lst = Fin 0, tot = Fin 0, cnt = 0, data = [] \<rparr>"

text \<open>\<^verbatim>\<open>data, _ = x.([]float64)\<close>: the sample of a written slot, \<^verbatim>\<open>nil\<close> for an
  empty one.\<close>

definition assert_sample :: "sample option \<Rightarrow> sample" where
  "assert_sample x = (case x of Some d \<Rightarrow> d | None \<Rightarrow> [])"

definition stat_value :: "machine \<Rightarrow> f64 \<Rightarrow> vars \<Rightarrow> vars" where
  "stat_value m v s =
     (let s1 = s \<lparr> lst := v \<rparr>;
          s2 = (if fgt v (maxv s1) then s1 \<lparr> maxv := v \<rparr> else s1);
          s3 = (if flt v (minv s2) then s2 \<lparr> minv := v \<rparr> else s2)
      in if fgt v (Fin 0) then s3 \<lparr> tot := fadd m (tot s3) v, cnt := cnt s3 + 1 \<rparr> else s3)"

definition stat_slot :: "machine \<Rightarrow> sample option \<Rightarrow> vars \<Rightarrow> vars" where
  "stat_slot m x s = fold (stat_value m) (assert_sample x) (s \<lparr> data := assert_sample x \<rparr>)"

definition plotRing_stats :: "machine \<Rightarrow> Ring \<Rightarrow> vars" where
  "plotRing_stats m r = ring_Do r (stat_slot m) init_vars"

definition plotRing_avg :: "machine \<Rightarrow> Ring \<Rightarrow> f64" where
  "plotRing_avg m r = (let s = plotRing_stats m r in fdiv m (tot s) (float64 (cnt s)))"

subsection \<open>\<^verbatim>\<open>plotRing\<close>: the drawing pass\<close>

definition vh :: "machine \<Rightarrow> f64 \<Rightarrow> f64 \<Rightarrow> int32" where
  "vh m mx v = int32 m (fmul m (fdiv m v mx) (float64 (panelHeight - 2))) - 1"

text \<open>One value \<open>v\<close> of series \<open>j\<close> in column \<open>i\<close>; \<open>prev\<close> is the sample of the slot
  visited before and \<open>vs\<close> the vertical offset of the panel.\<close>

definition plot_value ::
  "machine \<Rightarrow> f64 \<Rightarrow> int32 \<Rightarrow> int32 \<Rightarrow> sample \<Rightarrow> nat \<times> f64 \<Rightarrow> renderer \<Rightarrow> renderer" where
  "plot_value m mx vs i prev jv rd =
     (case jv of (j, v) \<Rightarrow>
        let (h, rd1) =
              (if IsNaN v then (panelHeight - 1, SetDrawColor errColor rd)
               else if fgt v (Fin 0) then
                 (vh m mx v,
                  if length plotColors > j then SetDrawColor (plotColors ! j) rd else rd)
               else (2, SetDrawColor (Color 0x00 0xFF 0x00 0xFF) rd));
            x = windowMargin + i;
            y1 = vs + windowMargin + panelHeight + 13;
            y2 = vs + windowMargin + panelHeight + 13;
            (y1', y2') =
              (if j > 0 \<and> length prev > j then
                 (y1 - min32 (vh m mx v) (vh m mx (prev ! j)),
                  y2 - max32 (vh m mx v) (vh m mx (prev ! j)))
               else (y1 - h, y2))
        in drawLine x y1' x y2' rd1)"

text \<open>One slot: the state is the column \<open>i\<close>, the variable \<open>data\<close> and the renderer.\<close>

definition plot_slot ::
  "machine \<Rightarrow> f64 \<Rightarrow> int32 \<Rightarrow> sample option \<Rightarrow> int32 \<times> sample \<times> renderer
     \<Rightarrow> int32 \<times> sample \<times> renderer" where
  "plot_slot m mx vs x st =
     (case st of (i, dat, rd) \<Rightarrow>
        let prev = dat;
            d = assert_sample x
        in (i + 1, d, fold (plot_value m mx vs i prev) (zip [0 ..< length d] d) rd))"

definition plotRing ::
  "machine \<Rightarrow> globals \<Rightarrow> Ring \<Rightarrow> string \<Rightarrow> int32 \<Rightarrow> renderer \<Rightarrow> Color \<Rightarrow> renderer" where
  "plotRing m g r host tgtnum rd color =
     (let vs = (tgtnum * targetSize) + 1;
          rd1 = SetDrawColor color rd;
          rd2 = drawRect windowMargin (vs + windowMargin + 15)
                  (windowWidth g - (windowMargin * 2)) panelHeight rd1;
          rd3 = drawText color windowMargin (vs + windowMargin - 3) (Text host) rd2;
          s = plotRing_stats m r;
          avg = fdiv m (tot s) (float64 (cnt s));
          (i, dat, rd4) = ring_Do r (plot_slot m (maxv s) vs) (0, data s, rd3);
          txt = Sprintf ''L=%.1f M=%.1f A=%.1f'' [Num (lst s), Num (maxv s), Num avg]
      in drawText color windowMargin (vs + windowMargin + panelHeight + 15) txt rd4)"

text \<open>One panel in one tick of the render loop: the \<^verbatim>\<open>select\<close>, then \<^verbatim>\<open>plotRing\<close>
  with the colour chosen there.\<close>

definition panel_tick ::
  "machine \<Rightarrow> globals \<Rightarrow> nat \<Rightarrow> panel \<Rightarrow> sample option \<Rightarrow> renderer \<Rightarrow> panic + (panel \<times> renderer)" where
  "panel_tick m g i p recv rd =
     (case collect g p recv of
        Inl e \<Rightarrow> Inl e
      | Inr (p', color) \<Rightarrow> Inr (p', plotRing m g (ring p') (target p') (of_nat i) rd color))"

fun panel_ticks ::
  "machine \<Rightarrow> globals \<Rightarrow> nat \<Rightarrow> panel \<Rightarrow> sample option list \<Rightarrow> renderer
     \<Rightarrow> panic + (panel \<times> renderer)" where
  "panel_ticks m g i p [] rd = Inr (p, rd)"
| "panel_ticks m g i p (recv # rest) rd =
     (case panel_tick m g i p recv rd of
        Inl e \<Rightarrow> Inl e
      | Inr (p', rd') \<Rightarrow> panel_ticks m g i p' rest rd')"

subsection \<open>Notions used in the statements\<close>

text \<open>An argument that the loop of \<^verbatim>\<open>parsePanels\<close> accepts: two tokens around one
  colon, the first a registered probe.\<close>

definition valid_arg :: "string \<Rightarrow> bool" where
  "valid_arg a = (length (Split a CHR '':'') = 2 \<and> probes (Split a CHR '':'' ! 0) \<noteq> None)"

text \<open>The error of the loop of \<^verbatim>\<open>parsePanels\<close> for an argument that it does not
  accept.\<close>

definition arg_error :: "string \<Rightarrow> error" where
  "arg_error a =
     (if length (Split a CHR '':'') \<noteq> 2 then Errorf ''Could not parse panel: %q'' [Str a]
      else Errorf ''Unsupported panel type: %q'' [Str (Split a CHR '':'' ! 0)])"

text \<open>An operating system that reports no error.\<close>

definition no_errors :: env where
  "no_errors = \<lparr> Getwd_error = None, Start_error = None \<rparr>"

text \<open>A scan that \<^verbatim>\<open>main\<close> rejects: an error, or not three values.\<close>

definition scan_fails :: "scanner \<Rightarrow> string \<Rightarrow> bool" where
  "scan_fails Sscanf s = (snd (Sscanf s) \<or> length (fst (Sscanf s)) \<noteq> 3)"

text \<open>All values of a ring, slot by slot in traversal order, and the positive ones.\<close>

definition ring_values :: "Ring \<Rightarrow> f64 list" where
  "ring_values r = concat (map assert_sample (ring_Do_list r))"

definition positives :: "f64 list \<Rightarrow> f64 list" where
  "positives vs = filter (\<lambda>v. fgt v (Fin 0)) vs"

text \<open>
  The line of \<^verbatim>\<open>plotRing\<close> for a positive value \<open>v\<close> of series \<open>j\<close> in column \<open>i\<close>
  of the panel at offset \<open>vs\<close>: \<open>mx\<close> is \<^verbatim>\<open>maxv\<close>, \<open>prev\<close> the sample of the slot
  visited before and \<open>c0\<close> the colour in use before (kept by a series beyond the
  palette). The line is the column from the baseline up by \<open>vh v\<close>, or, for a later
  series that the sample before has too, the segment between \<open>vh v\<close> and
  \<open>vh (prev ! j)\<close> above the baseline.
\<close>

definition positive_line ::
  "machine \<Rightarrow> f64 \<Rightarrow> int32 \<Rightarrow> int32 \<Rightarrow> sample \<Rightarrow> nat \<Rightarrow> f64 \<Rightarrow> Color \<Rightarrow> draw_op" where
  "positive_line m mx vs i prev j v c0 =
     DrawLine (if j < length plotColors then plotColors ! j else c0)
       (windowMargin + i)
       (if 0 < j \<and> j < length prev
        then vs + windowMargin + panelHeight + 13 - min32 (vh m mx v) (vh m mx (prev ! j))
        else vs + windowMargin + panelHeight + 13 - vh m mx v)
       (windowMargin + i)
       (if 0 < j \<and> j < length prev
        then vs + windowMargin + panelHeight + 13 - max32 (vh m mx v) (vh m mx (prev ! j))
        else vs + windowMargin + panelHeight + 13)"

fun is_DrawLine :: "draw_op \<Rightarrow> bool" where
  "is_DrawLine (DrawLine c x1 y1 x2 y2) = True"
| "is_DrawLine _ = False"

text \<open>The ring of a panel made by \<^verbatim>\<open>parsePanels\<close> after it has received the given
  samples, one per tick.\<close>

definition written :: "sample list \<Rightarrow> Ring" where
  "written vs = fold (\<lambda>v r. ring_Next (ring_set_Value v r)) vs (ring_New 168)"

text \<open>
  A machine for concrete runs: a result is not rounded (the runs below only meet small
  integers and their quotients by powers of two) and a conversion to \<^verbatim>\<open>int32\<close> that
  does not fit gives the smallest \<^verbatim>\<open>int32\<close>, as the conversion instruction of amd64
  does.
\<close>

definition exact_machine :: machine where
  "exact_machine = \<lparr> rnd = Fin, cvt = (\<lambda>x. 0x80000000) \<rparr>"

definition blank :: renderer where
  "blank = \<lparr> drawColor = Color 0 0 0 0, ops = [] \<rparr>"

section \<open>Properties\<close>

subsection \<open>The ring under writes\<close>

lemma ring_ok_New: "0 < n \<Longrightarrow> ring_ok (ring_New n)"
  by (simp add: ring_ok_def ring_New_def)

lemma ring_Do_list_New: "0 < n \<Longrightarrow> ring_Do_list (ring_New n) = replicate (nat n) None"
  by (simp add: ring_Do_list_def ring_New_def)

lemma ring_ok_write:
  assumes "ring_ok r"
  shows "ring_ok (ring_Next (ring_set_Value v r))"
proof -
  from assms have "0 < length (slots r)" by (auto simp: ring_ok_def)
  then have "Suc (cursor r) mod length (slots r) < length (slots r)"
    by (rule mod_less_divisor)
  then show ?thesis by (simp add: ring_ok_def ring_Next_def ring_set_Value_def)
qed

lemma ring_Len_write: "ring_Len (ring_Next (ring_set_Value v r)) = ring_Len r"
  by (simp add: ring_Len_def ring_Next_def ring_set_Value_def)

lemma length_ring_Do_list: "length (ring_Do_list r) = ring_Len r"
  by (simp add: ring_Do_list_def ring_Len_def)

lemma ring_Do_list_nonempty:
  assumes "ring_ok r"
  shows "ring_Do_list r \<noteq> []"
proof -
  have "length (ring_Do_list r) = length (slots r)"
    by (simp add: ring_Do_list_def)
  with assms show ?thesis by (auto simp: ring_ok_def)
qed

text \<open>A write drops the oldest value of the traversal and appends the new one.\<close>

lemma ring_Do_list_write:
  assumes "ring_ok r"
  shows "ring_Do_list (ring_Next (ring_set_Value v r)) = tl (ring_Do_list r) @ [Some v]"
proof -
  let ?xs = "slots r" and ?c = "cursor r"
  from assms have c: "?c < length ?xs" by (simp add: ring_ok_def)
  have tl_eq: "tl (drop ?c ?xs @ take ?c ?xs) = drop (Suc ?c) ?xs @ take ?c ?xs"
    using c by (simp add: drop_Suc tl_drop)
  show ?thesis
  proof (cases "Suc ?c < length ?xs")
    case True
    then have "take (Suc ?c) (?xs[?c := Some v]) = take ?c ?xs @ [Some v]"
      using c by (simp add: take_Suc_conv_app_nth)
    with True tl_eq show ?thesis
      by (simp add: ring_Do_list_def ring_Next_def ring_set_Value_def)
  next
    case False
    with c have last: "Suc ?c = length ?xs" by simp
    then have "?xs[?c := Some v] = take ?c ?xs @ [Some v]"
      by (metis c lessI take_Suc_conv_app_nth take_all_iff length_list_update
          nth_list_update_eq order_refl take_update_cancel)
    moreover from last have "drop (Suc ?c) ?xs = []" by simp
    ultimately show ?thesis
      using last tl_eq by (simp add: ring_Do_list_def ring_Next_def ring_set_Value_def)
  qed
qed

lemma collects_Some:
  assumes "ring_ok (ring p)"
  shows "\<exists>p'. collects g p (map Some vs) = Inr p' \<and> ring_ok (ring p')
           \<and> ptyp p' = ptyp p \<and> target p' = target p \<and> channel p' = channel p
           \<and> ring_Do_list (ring p') = drop (length vs) (ring_Do_list (ring p) @ map Some vs)"
  using assms
proof (induction vs arbitrary: p)
  case Nil
  then show ?case by simp
next
  case (Cons v vs)
  let ?p1 = "p \<lparr> ring := ring_Next (ring_set_Value v (ring p)) \<rparr>"
  from Cons.prems have ne: "slots (ring p) \<noteq> []" by (auto simp: ring_ok_def)
  then have step: "collect g p (Some v) = Inr (?p1, fg g)" by (simp add: collect_def)
  from Cons.prems have ok1: "ring_ok (ring ?p1)" by (simp add: ring_ok_write)
  from Cons.IH [OF ok1] obtain p' where
    p': "collects g ?p1 (map Some vs) = Inr p'" "ring_ok (ring p')"
        "ptyp p' = ptyp p" "target p' = target p" "channel p' = channel p"
        "ring_Do_list (ring p') = drop (length vs) (ring_Do_list (ring ?p1) @ map Some vs)"
    by auto
  have "ring_Do_list (ring ?p1) = tl (ring_Do_list (ring p)) @ [Some v]"
    using Cons.prems by (simp add: ring_Do_list_write)
  moreover have "ring_Do_list (ring p) \<noteq> []"
    using Cons.prems by (rule ring_Do_list_nonempty)
  ultimately have "ring_Do_list (ring ?p1) @ map Some vs
      = drop 1 (ring_Do_list (ring p) @ map Some (v # vs))"
    by (cases "ring_Do_list (ring p)") simp_all
  with p'(6) have "ring_Do_list (ring p')
      = drop (length vs) (drop 1 (ring_Do_list (ring p) @ map Some (v # vs)))"
    by (simp only:)
  also have "\<dots> = drop (length (v # vs)) (ring_Do_list (ring p) @ map Some (v # vs))"
    by (simp del: drop_append)
  finally have "ring_Do_list (ring p')
      = drop (length (v # vs)) (ring_Do_list (ring p) @ map Some (v # vs))" .
  with p'(1-5) step show ?case by (simp del: drop_append)
qed

text \<open>
  C2. A panel whose ring was made with capacity \<open>N > 0\<close> and that has received the
  samples \<open>vs\<close>, one per tick, holds, in traversal order, the last \<open>N\<close> entries of \<open>N\<close>
  empty slots followed by \<open>vs\<close>; once \<open>N\<close> or more samples were written, these are
  exactly the most recent \<open>N\<close> samples in write order, the oldest having been overwritten
  first.
\<close>

theorem ring_holds_most_recent:
  assumes "0 < N" and "ring p = ring_New N"
  shows "\<exists>p'. collects g p (map Some vs) = Inr p'
           \<and> ring_Len (ring p') = nat N
           \<and> ring_Do_list (ring p') = drop (length vs) (replicate (nat N) None @ map Some vs)
           \<and> (nat N \<le> length vs \<longrightarrow>
                ring_Do_list (ring p') = map Some (drop (length vs - nat N) vs))"
proof -
  from assms have ok: "ring_ok (ring p)" by (simp add: ring_ok_New)
  from collects_Some [OF ok, of g vs] obtain p' where
    p': "collects g p (map Some vs) = Inr p'"
        "ring_Do_list (ring p') = drop (length vs) (ring_Do_list (ring p) @ map Some vs)"
    by auto
  from assms have D: "ring_Do_list (ring p) = replicate (nat N) None"
    by (simp add: ring_Do_list_New)
  have len: "ring_Len (ring p') = nat N"
    using p'(2) D by (simp add: length_ring_Do_list [symmetric])
  have "nat N \<le> length vs \<Longrightarrow>
      drop (length vs) (replicate (nat N) None @ map Some vs)
        = map Some (drop (length vs - nat N) vs)"
    by (simp add: drop_map)
  with p' D len show ?thesis by auto
qed

text \<open>Capacity 10 and the twelve samples \<open>[1], ..., [12]\<close>: the ring holds the third to
  the twelfth.\<close>

theorem ring_holds_most_recent_witness:
  "\<exists>p'. collects init_globals
          \<lparr> ptyp = ''sine'', target = ''localhost'', channel = 0, ring = ring_New 10 \<rparr>
          (map Some (map (\<lambda>k. [Fin (real k)]) [1 ..< 13])) = Inr p'
     \<and> ring_Len (ring p') = 10
     \<and> ring_Do_list (ring p') = map Some (map (\<lambda>k. [Fin (real k)]) [3 ..< 13])"
proof -
  have up: "[Suc 0 ..< 13] = [1, 2, 3, 4, 5, 6, 7, 8, 9, 10, 11, 12 :: nat]"
    "[3 ..< 13] = [3, 4, 5, 6, 7, 8, 9, 10, 11, 12 :: nat]"
    by (simp_all add: upt_rec)
  show ?thesis
    using ring_holds_most_recent [of 10
        "\<lparr> ptyp = ''sine'', target = ''localhost'', channel = 0, ring = ring_New 10 \<rparr>"
        init_globals "map (\<lambda>k. [Fin (real k)]) [1 ..< 13]"]
    by (simp add: up)
qed

subsection \<open>Panel parsing\<close>

lemma length_Split: "length (Split s sep) = Suc (count_list s sep)"
  by (induction s) auto

lemma byte_max: "unat (- 1 :: uint8) = 255"
  by (simp add: unsigned_minus_1_eq_mask mask_eq_exp_minus_1)

lemma probes_return_nil: "probes t = Some p \<Longrightarrow> p x i = None"
  by (auto simp: probes_def split: if_splits)

lemma parseArgs_valid_prefix:
  assumes "\<forall>a \<in> set pre. valid_arg a"
  shows "\<exists>ps. length ps = length pre \<and>
           parseArgs g i (pre @ rest) =
             (case parseArgs g (i + length pre) rest of
                Inl e \<Rightarrow> Inl e
              | Inr qs \<Rightarrow> Inr (ps @ qs))"
  using assms
proof (induction pre arbitrary: i)
  case Nil
  show ?case by (cases "parseArgs g i rest") auto
next
  case (Cons a pre)
  from Cons.prems have "\<forall>a \<in> set pre. valid_arg a" by simp
  from Cons.IH [OF this, of "Suc i"] obtain ps where
    ps: "length ps = length pre"
        "parseArgs g (Suc i) (pre @ rest) =
           (case parseArgs g (Suc i + length pre) rest of
              Inl e \<Rightarrow> Inl e
            | Inr qs \<Rightarrow> Inr (ps @ qs))"
    by blast
  from Cons.prems have a: "length (Split a CHR '':'') = 2"
    and "probes (Split a CHR '':'' ! 0) \<noteq> None"
    by (simp_all add: valid_arg_def)
  then obtain pr where pr: "probes (Split a CHR '':'' ! 0) = Some pr" by blast
  then have nil: "pr (Split a CHR '':'' ! 1) i = None" by (rule probes_return_nil)
  let ?pn = "\<lparr> ptyp = Split a CHR '':'' ! 0, target = Split a CHR '':'' ! 1, channel = i,
               ring = ring_New (sint (panelWidth g - 2)) \<rparr>"
  have "parseArgs g i ((a # pre) @ rest) =
          (case parseArgs g (Suc i) (pre @ rest) of
             Inl e \<Rightarrow> Inl e
           | Inr qs \<Rightarrow> Inr (?pn # qs))"
    using a pr nil by (simp add: Let_def)
  with ps show ?case
    by (intro exI [of _ "?pn # ps"]) (simp split: sum.splits)
qed

lemma parseArgs_bad_head:
  "length (Split bad CHR '':'') \<noteq> 2 \<Longrightarrow>
     parseArgs g i (bad # post) = Inl (Errorf ''Could not parse panel: %q'' [Str bad])"
  by (simp add: Let_def)

lemma parseArgs_rings:
  "parseArgs g i args = Inr ps \<Longrightarrow> p \<in> set ps \<Longrightarrow> ring p = ring_New (sint (panelWidth g - 2))"
proof (induction args arbitrary: i ps)
  case Nil
  then show ?case by simp
next
  case (Cons a args)
  from Cons.prems(1) obtain qs pn where
    qs: "parseArgs g (Suc i) args = Inr qs" "ps = pn # qs"
        "ring pn = ring_New (sint (panelWidth g - 2))"
    by (auto simp: Let_def split: if_splits option.splits sum.splits)
  with Cons.prems(2) Cons.IH [OF qs(1)] show ?case by auto
qed

text \<open>
  C10. \<^verbatim>\<open>parsePanels\<close> takes from 1 to 255 arguments: with none it returns the error
  "No args specified", with more than 255 the error "Too many targets specified" (and no
  panel), and a list of 1 to 255 arguments that the loop accepts gives one panel each.
\<close>

theorem parsePanels_argument_count:
  "parsePanels g [] = Inl (Errorf ''No args specified'' []) \<and>
   (255 < length many \<longrightarrow>
      parsePanels g many = Inl (Errorf ''Too many targets specified'' [])) \<and>
   (1 \<le> length args \<and> length args \<le> 255 \<and> (\<forall>a \<in> set args. valid_arg a) \<longrightarrow>
      (\<exists>ps. parsePanels g args = Inr ps \<and> length ps = length args))"
proof -
  have "\<exists>ps. parsePanels g args = Inr ps \<and> length ps = length args"
    if "1 \<le> length args" "length args \<le> 255" "\<forall>a \<in> set args. valid_arg a"
  proof -
    from parseArgs_valid_prefix [OF that(3), of g 0 "[]"]
    obtain ps where "length ps = length args" "parseArgs g 0 args = Inr ps"
      by auto
    with that(1,2) show ?thesis by (auto simp: parsePanels_def byte_max)
  qed
  then show ?thesis by (simp add: parsePanels_def byte_max)
qed

theorem parsePanels_argument_count_witness:
  "parsePanels init_globals [] = Inl (Errorf ''No args specified'' []) \<and>
   parsePanels init_globals (replicate 256 ''sine:localhost'')
     = Inl (Errorf ''Too many targets specified'' []) \<and>
   (\<exists>ps. parsePanels init_globals [''sine:localhost'', ''multi:b''] = Inr ps \<and> length ps = 2)"
  using parsePanels_argument_count [of init_globals "replicate 256 ''sine:localhost''"
      "[''sine:localhost'', ''multi:b'']"]
  by (auto simp: valid_arg_def probes_def)


lemma parseArgs_invalid_head:
  assumes "\<not> valid_arg x"
  shows "parseArgs g i (x # post) = Inl (arg_error x)"
  using assms by (auto simp: valid_arg_def arg_error_def Let_def)

lemma parseArgs_first_failure:
  assumes "\<forall>a \<in> set pre. valid_arg a" and "\<not> valid_arg x"
  shows "parseArgs g i (pre @ x # post) = Inl (arg_error x)"
  using parseArgs_valid_prefix [OF assms(1), of g i "x # post"]
    parseArgs_invalid_head [OF assms(2), of g "i + length pre" post]
  by auto

lemma parseArgs_reports_first_invalid:
  assumes "x \<in> set args" and "\<not> valid_arg x"
  shows "parseArgs g i args = Inl (arg_error (hd (dropWhile valid_arg args)))"
proof -
  from assms have ne: "dropWhile valid_arg args \<noteq> []"
    by (auto simp: dropWhile_eq_Nil_conv)
  then have inv: "\<not> valid_arg (hd (dropWhile valid_arg args))"
    by (rule hd_dropWhile)
  have pre: "\<forall>a \<in> set (takeWhile valid_arg args). valid_arg a"
    by (auto dest: set_takeWhileD)
  from ne have "args = takeWhile valid_arg args @ hd (dropWhile valid_arg args) # tl (dropWhile valid_arg args)"
    by simp
  then have "parseArgs g i args =
      parseArgs g i (takeWhile valid_arg args @ hd (dropWhile valid_arg args) # tl (dropWhile valid_arg args))"
    by simp
  also have "\<dots> = Inl (arg_error (hd (dropWhile valid_arg args)))"
    using pre inv by (rule parseArgs_first_failure)
  finally show ?thesis .
qed

lemma unparseable_not_valid: "count_list bad CHR '':'' \<noteq> 1 \<Longrightarrow> \<not> valid_arg bad"
  by (simp add: valid_arg_def length_Split)

lemma main_foreground_parse_error:
  "parsePanels g args = Inl err \<Longrightarrow>
   main Sscanf env g arg0 rest True args bgColor fgColor = Inl (Exit 1 (Error err))"
  by (simp add: main_def errbox_def)

lemma main_detaches:
  "Getwd_error env = None \<Longrightarrow> Start_error env = None \<Longrightarrow>
   main Sscanf env g arg0 rest False args bgColor fgColor = Inl (Detached (arg0 # ''-f'' # rest))"
  by (simp add: main_def)

text \<open>
  C7, as the code has it. An argument list with a token that does not have exactly one
  colon never yields panels: \<^verbatim>\<open>parsePanels\<close> returns an error, and the instance of
  the process run with \<^verbatim>\<open>-f\<close> shows that error and exits with status 1. The error is
  "Too many targets specified" for a list of more than 255 arguments, and otherwise the
  error of the first argument, in order, that the loop does not accept: "Could not parse
  panel" with the argument when it does not have exactly one colon, "Unsupported panel
  type" with its type otherwise. So the token is the one reported when the list has at
  most 255 arguments and every argument before it is accepted. A process started without
  \<^verbatim>\<open>-f\<close> does not parse the panel arguments: when the operating system reports no
  error for the working directory and for the start, it starts itself again with
  \<^verbatim>\<open>-f\<close> and exits with status 0.
\<close>

theorem parsePanels_unparseable_token:
  assumes "count_list bad CHR '':'' \<noteq> 1"
  shows "parsePanels g (pre @ bad # post) =
           Inl (if 255 < length (pre @ bad # post) then Errorf ''Too many targets specified'' []
                else arg_error (hd (dropWhile valid_arg (pre @ bad # post)))) \<and>
         main Sscanf env g arg0 rest True (pre @ bad # post) bgColor fgColor =
           Inl (Exit 1 (Error
             (if 255 < length (pre @ bad # post) then Errorf ''Too many targets specified'' []
              else arg_error (hd (dropWhile valid_arg (pre @ bad # post)))))) \<and>
         (length (pre @ bad # post) \<le> 255 \<and> (\<forall>a \<in> set pre. valid_arg a) \<longrightarrow>
            parsePanels g (pre @ bad # post) =
              Inl (Errorf ''Could not parse panel: %q'' [Str bad])) \<and>
         (Getwd_error env = None \<and> Start_error env = None \<longrightarrow>
            main Sscanf env g arg0 rest False (pre @ bad # post) bgColor fgColor =
              Inl (Detached (arg0 # ''-f'' # rest)))"
proof -
  let ?args = "pre @ bad # post"
  let ?e = "if 255 < length ?args then Errorf ''Too many targets specified'' []
            else arg_error (hd (dropWhile valid_arg ?args))"
  from assms have inv: "\<not> valid_arg bad" by (rule unparseable_not_valid)
  have "bad \<in> set ?args" by simp
  from parseArgs_reports_first_invalid [OF this inv]
  have loop: "parseArgs g 0 ?args = Inl (arg_error (hd (dropWhile valid_arg ?args)))" .
  have pp: "parsePanels g ?args = Inl ?e"
    using loop by (simp add: parsePanels_def byte_max)
  from pp have m: "main Sscanf env g arg0 rest True ?args bgColor fgColor = Inl (Exit 1 (Error ?e))"
    by (rule main_foreground_parse_error)
  have first: "parsePanels g ?args = Inl (Errorf ''Could not parse panel: %q'' [Str bad])"
    if len: "length ?args \<le> 255" and pre: "\<forall>a \<in> set pre. valid_arg a"
  proof -
    from assms have "length (Split bad CHR '':'') \<noteq> 2" by (simp add: length_Split)
    then have "arg_error bad = Errorf ''Could not parse panel: %q'' [Str bad]"
      by (simp add: arg_error_def)
    with parseArgs_first_failure [OF pre inv, of g 0 post] len show ?thesis
      by (simp add: parsePanels_def byte_max)
  qed
  from pp m first main_detaches show ?thesis by blast
qed

lemma parsePanels_sine_localhost:
  "parsePanels init_globals [''sine:localhost'']
     = Inr [\<lparr> ptyp = ''sine'', target = ''localhost'', channel = 0, ring = ring_New 168 \<rparr>]"
  by (simp add: parsePanels_def byte_max probes_def Let_def init_globals_def windowMargin_def)

theorem parsePanels_unparseable_token_witness:
  "count_list ''badtoken'' CHR '':'' \<noteq> 1 \<and>
   parsePanels init_globals [''sine:localhost'', ''badtoken'', ''multi:b'']
     = Inl (Errorf ''Could not parse panel: %q'' [Str ''badtoken'']) \<and>
   main Sscanf_2x2x2x no_errors init_globals ''netwatch''
       [''-f'', ''sine:localhost'', ''badtoken'', ''multi:b''] True
       [''sine:localhost'', ''badtoken'', ''multi:b''] [] []
     = Inl (Exit 1 (Error (Errorf ''Could not parse panel: %q'' [Str ''badtoken'']))) \<and>
   main Sscanf_2x2x2x no_errors init_globals ''netwatch''
       [''sine:localhost'', ''badtoken'', ''multi:b''] False
       [''sine:localhost'', ''badtoken'', ''multi:b''] [] []
     = Inl (Detached [''netwatch'', ''-f'', ''sine:localhost'', ''badtoken'', ''multi:b''])"
proof -
  have c: "count_list ''badtoken'' CHR '':'' \<noteq> 1" by simp
  have v: "valid_arg ''sine:localhost''" "\<not> valid_arg ''badtoken''"
    by (simp_all add: valid_arg_def probes_def)
  have e: "arg_error ''badtoken'' = Errorf ''Could not parse panel: %q'' [Str ''badtoken'']"
    by (simp add: arg_error_def)
  from parsePanels_unparseable_token [OF c, of init_globals "[''sine:localhost'']" "[''multi:b'']"
      Sscanf_2x2x2x no_errors "''netwatch''" "[''-f'', ''sine:localhost'', ''badtoken'', ''multi:b'']" "[]" "[]"]
    parsePanels_unparseable_token [OF c, of init_globals "[''sine:localhost'']" "[''multi:b'']"
      Sscanf_2x2x2x no_errors "''netwatch''" "[''sine:localhost'', ''badtoken'', ''multi:b'']" "[]" "[]"]
    c v e
  show ?thesis by (simp add: no_errors_def)
qed

text \<open>The claim as it was stated fails when an argument of an unregistered type stands
  before the token (that argument is reported, not the token), when the list is too long
  (the count is reported), and for a process started without \<^verbatim>\<open>-f\<close> (status 0).\<close>

theorem parsePanels_unparseable_token_counterexample:
  "parsePanels init_globals [''x:y'', ''badtoken'']
     = Inl (Errorf ''Unsupported panel type: %q'' [Str ''x'']) \<and>
   parsePanels init_globals [''x:y'', ''badtoken'']
     \<noteq> Inl (Errorf ''Could not parse panel: %q'' [Str ''badtoken'']) \<and>
   parsePanels init_globals (replicate 255 ''sine:localhost'' @ [''badtoken''])
     = Inl (Errorf ''Too many targets specified'' []) \<and>
   main Sscanf_2x2x2x no_errors init_globals ''netwatch'' [''badtoken''] False [''badtoken''] [] []
     = Inl (Detached [''netwatch'', ''-f'', ''badtoken''])"
  by (simp add: parsePanels_def byte_max probes_def Let_def main_def no_errors_def)

text \<open>
  C6, as the code has it. Every panel that \<^verbatim>\<open>parsePanels\<close> returns has a ring made by
  \<^verbatim>\<open>ring.New(int(panelWidth - 2))\<close>; with the initial package variables, as \<^verbatim>\<open>main\<close>
  calls it, that is \<open>windowWidth - 2 * windowMargin - 2 = 168\<close> slots, the width of
  the inside of the border rectangle.
\<close>

theorem parsePanels_ring_capacity:
  assumes "parsePanels g args = Inr ps" and "p \<in> set ps"
  shows "ring p = ring_New (sint (panelWidth g - 2)) \<and>
         (g = init_globals \<longrightarrow>
            ring_Len (ring p) = 168 \<and>
            int (ring_Len (ring p)) = sint (windowWidth g - windowMargin * 2 - 2))"
proof -
  from assms(1) have "parseArgs g 0 args = Inr ps"
    by (simp add: parsePanels_def split: if_splits)
  from parseArgs_rings [OF this assms(2)]
  have r: "ring p = ring_New (sint (panelWidth g - 2))" .
  have "ring_Len (ring_New (sint (panelWidth init_globals - 2))) = 168"
    by (simp add: init_globals_def windowMargin_def ring_New_def ring_Len_def)
  moreover have "sint (windowWidth init_globals - windowMargin * 2 - 2) = 168"
    by (simp add: init_globals_def windowMargin_def)
  ultimately show ?thesis using r by simp
qed

theorem parsePanels_ring_capacity_witness:
  "\<exists>p. parsePanels init_globals [''sine:localhost''] = Inr [p] \<and>
       ring p = ring_New 168 \<and> ring_Len (ring p) = 168"
proof -
  let ?p = "\<lparr> ptyp = ''sine'', target = ''localhost'', channel = 0, ring = ring_New 168 \<rparr>"
  have run: "parsePanels init_globals [''sine:localhost''] = Inr [?p]"
    by (simp add: parsePanels_def byte_max probes_def Let_def init_globals_def windowMargin_def)
  have pw: "sint (panelWidth init_globals - 2) = 168"
    by (simp add: init_globals_def windowMargin_def)
  from parsePanels_ring_capacity [OF run, of ?p] run show ?thesis by (simp add: pw)
qed

text \<open>The ring does not have \<open>windowWidth - 2 = 178\<close> slots.\<close>

theorem parsePanels_ring_capacity_counterexample:
  "parsePanels init_globals [''sine:localhost'']
     = Inr [\<lparr> ptyp = ''sine'', target = ''localhost'', channel = 0, ring = ring_New 168 \<rparr>] \<and>
   ring_Len (ring_New 168) = 168 \<and>
   sint (windowWidth init_globals - 2) = 178"
  by (simp add: parsePanels_def byte_max probes_def Let_def init_globals_def windowMargin_def
      ring_New_def ring_Len_def)

subsection \<open>Colour options\<close>

text \<open>
  C9, as the code has it. In the instance of the process run with \<^verbatim>\<open>-f\<close>, once the
  panel arguments have parsed, a background colour of exactly six bytes that the scan
  rejects ends the process with status 1 and the message "Unable to parse bg background
  color", and so does a foreground colour, with "Unable to parse fg foreground color",
  when the background colour was skipped or accepted; nothing has been drawn then, the
  start-up has not returned. An error of the panel arguments is reported before the
  colours are read, also with status 1. An option of any other length is never scanned:
  the run is the run without the option. A process started without \<^verbatim>\<open>-f\<close> does not
  read the colours: when the operating system reports no error for the working directory
  and for the start, it starts itself again with \<^verbatim>\<open>-f\<close> and exits with status 0.
\<close>

theorem colour_option_rejected:
  "(parsePanels g args = Inr ps \<and> length c = 6 \<and> scan_fails Sscanf c \<longrightarrow>
      main Sscanf env g arg0 rest True args c fgColor
        = Inl (Exit 1 (Text ''Unable to parse bg background color'')) \<and>
      (length bgColor \<noteq> 6 \<or> \<not> scan_fails Sscanf bgColor \<longrightarrow>
         main Sscanf env g arg0 rest True args bgColor c
           = Inl (Exit 1 (Text ''Unable to parse fg foreground color'')))) \<and>
   (parsePanels g bad_args = Inl err \<longrightarrow>
      main Sscanf env g arg0 rest True bad_args bgColor fgColor = Inl (Exit 1 (Error err))) \<and>
   (length d \<noteq> 6 \<longrightarrow>
      main Sscanf env g arg0 rest True args d fgColor
        = main Sscanf env g arg0 rest True args [] fgColor \<and>
      main Sscanf env g arg0 rest True args bgColor d
        = main Sscanf env g arg0 rest True args bgColor []) \<and>
   (Getwd_error env = None \<and> Start_error env = None \<longrightarrow>
      main Sscanf env g arg0 rest False args bgColor fgColor
        = Inl (Detached (arg0 # ''-f'' # rest)))"
proof -
  have bgc: "main Sscanf env g arg0 rest True args c fgColor
      = Inl (Exit 1 (Text ''Unable to parse bg background color''))"
    if "parsePanels g args = Inr ps" "length c = 6" "scan_fails Sscanf c"
    using that
    by (cases "Sscanf c") (auto simp: main_def scan_fails_def errbox_def)
  have fgc: "main Sscanf env g arg0 rest True args bgColor c
      = Inl (Exit 1 (Text ''Unable to parse fg foreground color''))"
    if "parsePanels g args = Inr ps" "length c = 6" "scan_fails Sscanf c"
      "length bgColor \<noteq> 6 \<or> \<not> scan_fails Sscanf bgColor"
    using that
    by (cases "Sscanf c"; cases "Sscanf bgColor") (auto simp: main_def scan_fails_def errbox_def)
  have skip: "main Sscanf env g arg0 rest True args d fgColor
        = main Sscanf env g arg0 rest True args [] fgColor \<and>
      main Sscanf env g arg0 rest True args bgColor d
        = main Sscanf env g arg0 rest True args bgColor []"
    if "length d \<noteq> 6"
    using that by (auto simp: main_def split: sum.splits)
  from bgc fgc skip main_foreground_parse_error main_detaches show ?thesis by blast
qed

lemma Sscanf_zzzzzz: "Sscanf_2x2x2x ''zzzzzz'' = ([], True)"
  by (simp add: Sscanf_2x2x2x_def scan2x_def isSpace_def isHex_def)

theorem colour_option_rejected_witness:
  "length ''zzzzzz'' = 6 \<and> scan_fails Sscanf_2x2x2x ''zzzzzz'' \<and>
   main Sscanf_2x2x2x no_errors init_globals ''netwatch'' [] True [''sine:localhost''] ''zzzzzz'' []
     = Inl (Exit 1 (Text ''Unable to parse bg background color'')) \<and>
   main Sscanf_2x2x2x no_errors init_globals ''netwatch'' [] True [''sine:localhost''] [] ''zzzzzz''
     = Inl (Exit 1 (Text ''Unable to parse fg foreground color'')) \<and>
   main Sscanf_2x2x2x no_errors init_globals ''netwatch'' [] True [''badtoken''] [] []
     = Inl (Exit 1 (Error (Errorf ''Could not parse panel: %q'' [Str ''badtoken'']))) \<and>
   length ''red'' \<noteq> 6 \<and>
   main Sscanf_2x2x2x no_errors init_globals ''netwatch'' [] True [''sine:localhost''] ''red'' []
     = main Sscanf_2x2x2x no_errors init_globals ''netwatch'' [] True [''sine:localhost''] [] [] \<and>
   main Sscanf_2x2x2x no_errors init_globals ''netwatch'' [] False [''sine:localhost''] [] []
     = Inl (Detached [''netwatch'', ''-f''])"
proof -
  have f: "scan_fails Sscanf_2x2x2x ''zzzzzz''"
    by (simp add: scan_fails_def Sscanf_zzzzzz)
  have b: "parsePanels init_globals [''badtoken'']
      = Inl (Errorf ''Could not parse panel: %q'' [Str ''badtoken''])"
    by (simp add: parsePanels_def byte_max Let_def)
  from colour_option_rejected [where g = init_globals and args = "[''sine:localhost'']"
      and c = "''zzzzzz''" and Sscanf = Sscanf_2x2x2x and env = no_errors
      and ?arg0.0 = "''netwatch''" and rest = "[]" and fgColor = "[]" and bgColor = "[]"
      and bad_args = "[''badtoken'']" and d = "''red''"]
    f b parsePanels_sine_localhost
  show ?thesis by (simp add: no_errors_def)
qed

text \<open>The malformed colour \<^verbatim>\<open>red\<close> is not reported: start-up goes on with the
  default colours. And a process started without \<^verbatim>\<open>-f\<close> reports no colour at all.\<close>

theorem colour_option_rejected_counterexample:
  "main Sscanf_2x2x2x no_errors init_globals ''netwatch'' [''-f'', ''-bg'', ''red'', ''sine:localhost'']
       True [''sine:localhost''] ''red'' []
     = Inr (init_globals,
            [\<lparr> ptyp = ''sine'', target = ''localhost'', channel = 0, ring = ring_New 168 \<rparr>]) \<and>
   main Sscanf_2x2x2x no_errors init_globals ''netwatch'' [''-bg'', ''zzzzzz'', ''sine:localhost'']
       False [''sine:localhost''] ''zzzzzz'' []
     = Inl (Detached [''netwatch'', ''-f'', ''-bg'', ''zzzzzz'', ''sine:localhost''])"
  by (simp add: main_def parsePanels_sine_localhost no_errors_def)


subsection \<open>The statistics pass\<close>

lemma flt_irrefl: "\<not> flt a a"
  by (cases a) auto

lemma flt_trans: "flt a b \<Longrightarrow> flt b c \<Longrightarrow> flt a c"
  by (cases a; cases b; cases c) auto

lemma stat_value_data: "data (stat_value m v s) = data s"
  by (simp add: stat_value_def Let_def)

lemma stat_value_lst: "lst (stat_value m v s) = v"
  by (simp add: stat_value_def Let_def)

lemma stat_value_maxv: "maxv (stat_value m v s) = (if fgt v (maxv s) then v else maxv s)"
  by (simp add: stat_value_def Let_def)

lemma stat_value_minv: "minv (stat_value m v s) = (if flt v (minv s) then v else minv s)"
  by (simp add: stat_value_def Let_def)

lemma stat_value_tot:
  "tot (stat_value m v s) = (if fgt v (Fin 0) then fadd m (tot s) v else tot s)"
  by (simp add: stat_value_def Let_def)

lemma stat_value_cnt:
  "cnt (stat_value m v s) = (if fgt v (Fin 0) then cnt s + 1 else cnt s)"
  by (simp add: stat_value_def Let_def)

lemma stat_value_update_data:
  "stat_value m v (s \<lparr> data := d \<rparr>) = (stat_value m v s) \<lparr> data := d \<rparr>"
  by (simp add: stat_value_def Let_def)

lemma fold_stat_value_update_data:
  "fold (stat_value m) vs (s \<lparr> data := d \<rparr>) = (fold (stat_value m) vs s) \<lparr> data := d \<rparr>"
  by (induction vs arbitrary: s) (simp_all add: stat_value_update_data)

lemma fold_stat_slot:
  "fold (stat_slot m) xs s =
     (fold (stat_value m) (concat (map assert_sample xs)) s)
       \<lparr> data := (if xs = [] then data s else assert_sample (last xs)) \<rparr>"
proof (induction xs arbitrary: s)
  case Nil
  show ?case by simp
next
  case (Cons x xs)
  have "fold (stat_slot m) (x # xs) s = fold (stat_slot m) xs (stat_slot m x s)"
    by simp
  also have "\<dots> = (fold (stat_value m) (concat (map assert_sample xs)) (stat_slot m x s))
       \<lparr> data := (if xs = [] then data (stat_slot m x s) else assert_sample (last xs)) \<rparr>"
    by (rule Cons.IH)
  also have "\<dots> = (fold (stat_value m) (concat (map assert_sample (x # xs))) s)
       \<lparr> data := (if x # xs = [] then data s else assert_sample (last (x # xs))) \<rparr>"
    by (simp add: stat_slot_def fold_stat_value_update_data)
  finally show ?case .
qed

lemma plotRing_stats_values:
  "plotRing_stats m r =
     (fold (stat_value m) (ring_values r) init_vars)
       \<lparr> data := (if ring_Do_list r = [] then [] else assert_sample (last (ring_Do_list r))) \<rparr>"
  by (simp add: plotRing_stats_def ring_Do_def ring_values_def fold_stat_slot init_vars_def)

lemma positives_snoc:
  "positives (vs @ [v]) = (if fgt v (Fin 0) then positives vs @ [v] else positives vs)"
  by (simp add: positives_def)

lemma stats_lst:
  "lst (fold (stat_value m) vs init_vars) = (if vs = [] then Fin 0 else last vs)"
  by (induction vs rule: rev_induct) (simp_all add: init_vars_def stat_value_lst)

lemma stats_tot:
  "tot (fold (stat_value m) vs init_vars) = foldl (fadd m) (Fin 0) (positives vs)"
  by (induction vs rule: rev_induct)
    (simp_all add: init_vars_def stat_value_tot positives_snoc, simp add: positives_def)

lemma stats_cnt:
  "cnt (fold (stat_value m) vs init_vars) = of_nat (length (positives vs))"
  by (induction vs rule: rev_induct)
    (simp_all add: init_vars_def stat_value_cnt positives_snoc, simp add: positives_def)

lemma stats_maxv:
  "(positives vs = [] \<longrightarrow> maxv (fold (stat_value m) vs init_vars) = Fin 0) \<and>
   (positives vs \<noteq> [] \<longrightarrow> maxv (fold (stat_value m) vs init_vars) \<in> set (positives vs)) \<and>
   (\<forall>v \<in> set vs. \<not> flt (maxv (fold (stat_value m) vs init_vars)) v)"
proof (induction vs rule: rev_induct)
  case Nil
  show ?case by (simp add: init_vars_def positives_def)
next
  case (snoc v vs)
  let ?M = "maxv (fold (stat_value m) vs init_vars)"
  have M0: "?M = Fin 0 \<or> fgt ?M (Fin 0)"
    using snoc.IH by (cases "positives vs = []") (auto simp: positives_def)
  show ?case
  proof (cases "fgt v ?M")
    case True
    with M0 have pos: "fgt v (Fin 0)"
      by (auto simp: fgt_def intro: flt_trans)
    have "\<not> flt v u" if "u \<in> set vs" for u
    proof
      assume "flt v u"
      with True have "flt ?M u" by (auto simp: fgt_def intro: flt_trans)
      with snoc.IH that show False by blast
    qed
    with True pos show ?thesis
      by (auto simp: stat_value_maxv positives_snoc flt_irrefl)
  next
    case False
    then have nv: "\<not> flt ?M v" by (simp add: fgt_def)
    have "positives vs \<noteq> []" if "fgt v (Fin 0)"
    proof
      assume "positives vs = []"
      with snoc.IH have "?M = Fin 0" by blast
      with that False show False by simp
    qed
    with False nv snoc.IH show ?thesis
      by (auto simp: stat_value_maxv positives_snoc)
  qed
qed

lemma stats_minv:
  "minv (fold (stat_value m) vs init_vars) \<in> set (Fin 10000 # vs) \<and>
   minv (fold (stat_value m) vs init_vars) \<noteq> NaN \<and>
   \<not> flt (Fin 10000) (minv (fold (stat_value m) vs init_vars)) \<and>
   (\<forall>v \<in> set vs. \<not> flt v (minv (fold (stat_value m) vs init_vars)))"
proof (induction vs rule: rev_induct)
  case Nil
  show ?case by (simp add: init_vars_def)
next
  case (snoc v vs)
  let ?L = "minv (fold (stat_value m) vs init_vars)"
  show ?case
  proof (cases "flt v ?L")
    case True
    then have "v \<noteq> NaN" by auto
    moreover have "\<not> flt (Fin 10000) v"
    proof
      assume "flt (Fin 10000) v"
      with True have "flt (Fin 10000) ?L" by (blast intro: flt_trans)
      with snoc.IH show False by blast
    qed
    moreover have "\<not> flt u v" if "u \<in> set vs" for u
    proof
      assume "flt u v"
      with True have "flt u ?L" by (blast intro: flt_trans)
      with snoc.IH that show False by blast
    qed
    ultimately show ?thesis using True
      by (auto simp: stat_value_minv flt_irrefl)
  next
    case False
    with snoc.IH show ?thesis
      by (auto simp: stat_value_minv)
  qed
qed


lemma fold_write_Do_list:
  assumes "ring_ok r"
  shows "ring_ok (fold (\<lambda>v r. ring_Next (ring_set_Value v r)) vs r) \<and>
         ring_Do_list (fold (\<lambda>v r. ring_Next (ring_set_Value v r)) vs r)
           = drop (length vs) (ring_Do_list r @ map Some vs)"
  using assms
proof (induction vs arbitrary: r)
  case Nil
  then show ?case by simp
next
  case (Cons v vs)
  let ?r1 = "ring_Next (ring_set_Value v r)"
  from Cons.prems have ok1: "ring_ok ?r1" by (rule ring_ok_write)
  have "ring_Do_list ?r1 = tl (ring_Do_list r) @ [Some v]"
    using Cons.prems by (rule ring_Do_list_write)
  moreover have "ring_Do_list r \<noteq> []"
    using Cons.prems by (rule ring_Do_list_nonempty)
  ultimately have "ring_Do_list ?r1 @ map Some vs = drop 1 (ring_Do_list r @ map Some (v # vs))"
    by (cases "ring_Do_list r") simp_all
  then have "drop (length vs) (ring_Do_list ?r1 @ map Some vs)
      = drop (length (v # vs)) (ring_Do_list r @ map Some (v # vs))"
    by (simp del: drop_append)
  with Cons.IH [OF ok1] show ?case by (simp del: drop_append)
qed

lemma written_Do_list:
  "ring_Do_list (written vs) = drop (length vs) (replicate 168 None @ map Some vs)"
proof -
  have "ring_ok (ring_New 168)" by (rule ring_ok_New) simp
  from fold_write_Do_list [OF this, of vs] show ?thesis
    by (simp add: written_def ring_Do_list_New del: drop_append)
qed

lemma concat_assert_None: "concat (replicate n (assert_sample None)) = []"
  by (induction n) (simp_all add: assert_sample_def)

lemma assert_sample_Some: "map (assert_sample \<circ> Some) vs = vs"
  by (induction vs) (simp_all add: assert_sample_def)

lemma ring_values_written:
  assumes "length vs \<le> 168"
  shows "ring_values (written vs) = concat vs"
  using assms
  by (simp add: ring_values_def written_Do_list concat_assert_None assert_sample_Some)

lemma collects_written:
  assumes "ring_ok (ring p)"
  shows "collects g p (map Some vs)
           = Inr (p \<lparr> ring := fold (\<lambda>v r. ring_Next (ring_set_Value v r)) vs (ring p) \<rparr>)"
  using assms
proof (induction vs arbitrary: p)
  case Nil
  show ?case by simp
next
  case (Cons v vs)
  let ?p1 = "p \<lparr> ring := ring_Next (ring_set_Value v (ring p)) \<rparr>"
  from Cons.prems have "slots (ring p) \<noteq> []" by (auto simp: ring_ok_def)
  then have step: "collect g p (Some v) = Inr (?p1, fg g)" by (simp add: collect_def)
  from Cons.prems have "ring_ok (ring ?p1)" by (simp add: ring_ok_write)
  from Cons.IH [OF this] step show ?case by simp
qed

text \<open>
  C1, as the code has it. Let \<open>vs\<close> be the values of all samples of the ring in
  traversal order and \<open>v1..vk\<close> the positive ones among them (not-a-number and
  non-positive entries left out). After the statistics pass, for \<open>k > 0\<close> the variable
  \<open>maxv\<close> is the greatest of \<open>v1..vk\<close>, and the average is the sum of \<open>v1..vk\<close>
  (added in this order, from 0) divided by \<open>k\<close>. The variable \<open>minv\<close> is the least of
  10000 and all values of \<open>vs\<close> that are numbers, the non-positive ones included.
  The variable \<open>lst\<close> is the last value of \<open>vs\<close>: the value of the last series of the
  sample written most recently, whenever that sample is not empty.
\<close>

theorem statistics_pass:
  "(positives (ring_values r) \<noteq> [] \<longrightarrow>
      maxv (plotRing_stats m r) \<in> set (positives (ring_values r)) \<and>
      (\<forall>v \<in> set (positives (ring_values r)). \<not> flt (maxv (plotRing_stats m r)) v)) \<and>
   plotRing_avg m r =
      fdiv m (foldl (fadd m) (Fin 0) (positives (ring_values r)))
        (float64 (of_nat (length (positives (ring_values r))))) \<and>
   minv (plotRing_stats m r) \<in> set (Fin 10000 # ring_values r) \<and>
   minv (plotRing_stats m r) \<noteq> NaN \<and>
   (\<forall>v \<in> set (Fin 10000 # ring_values r). \<not> flt v (minv (plotRing_stats m r))) \<and>
   (ring_values r \<noteq> [] \<longrightarrow> lst (plotRing_stats m r) = last (ring_values r)) \<and>
   (\<forall>xs d. ring_Do_list r = xs @ [Some d] \<and> d \<noteq> [] \<longrightarrow> lst (plotRing_stats m r) = last d)"
proof -
  let ?s = "fold (stat_value m) (ring_values r) init_vars"
  have sel: "maxv (plotRing_stats m r) = maxv ?s" "minv (plotRing_stats m r) = minv ?s"
    "lst (plotRing_stats m r) = lst ?s" "tot (plotRing_stats m r) = tot ?s"
    "cnt (plotRing_stats m r) = cnt ?s"
    by (simp_all add: plotRing_stats_values)
  have mx: "positives (ring_values r) \<noteq> [] \<longrightarrow>
      maxv ?s \<in> set (positives (ring_values r)) \<and>
      (\<forall>v \<in> set (positives (ring_values r)). \<not> flt (maxv ?s) v)"
    using stats_maxv [of "ring_values r" m] by (auto simp: positives_def)
  have av: "plotRing_avg m r =
      fdiv m (foldl (fadd m) (Fin 0) (positives (ring_values r)))
        (float64 (of_nat (length (positives (ring_values r)))))"
    by (simp add: plotRing_avg_def Let_def sel stats_tot stats_cnt)
  have mn: "minv ?s \<in> set (Fin 10000 # ring_values r)" "minv ?s \<noteq> NaN"
    "\<forall>v \<in> set (Fin 10000 # ring_values r). \<not> flt v (minv ?s)"
    using stats_minv [of m "ring_values r"] by auto
  have l1: "ring_values r \<noteq> [] \<longrightarrow> lst ?s = last (ring_values r)"
    by (simp add: stats_lst)
  have l2: "lst ?s = last d" if "ring_Do_list r = xs @ [Some d]" "d \<noteq> []" for xs d
  proof -
    from that have "ring_values r = concat (map assert_sample xs) @ d"
      by (simp add: ring_values_def assert_sample_def)
    with that(2) have "ring_values r \<noteq> []" "last (ring_values r) = last d"
      by simp_all
    with l1 show ?thesis by simp
  qed
  from mx av mn l1 l2 show ?thesis
    unfolding sel by blast
qed

lemma exact_rnd: "rnd exact_machine = Fin"
  by (simp add: exact_machine_def)

theorem statistics_pass_witness:
  "maxv (plotRing_stats exact_machine (written [[Fin 3], [Fin 2, Fin (- 1), Fin 5]])) = Fin 5 \<and>
   plotRing_avg exact_machine (written [[Fin 3], [Fin 2, Fin (- 1), Fin 5]])
     = fdiv exact_machine (Fin 10) (Fin 3) \<and>
   minv (plotRing_stats exact_machine (written [[Fin 3], [Fin 2, Fin (- 1), Fin 5]])) = Fin (- 1) \<and>
   lst (plotRing_stats exact_machine (written [[Fin 3], [Fin 2, Fin (- 1), Fin 5]])) = Fin 5"
proof -
  let ?r = "written [[Fin 3], [Fin 2, Fin (- 1), Fin 5]]"
  have vs: "ring_values ?r = [Fin 3, Fin 2, Fin (- 1), Fin 5]"
    by (simp add: ring_values_written)
  from statistics_pass [of ?r exact_machine] show ?thesis
    by (auto simp: vs positives_def fgt_def float64_def exact_rnd)
qed

text \<open>One sample \<open>[2, -1, 5]\<close>: the positive values are 2 and 5 and the first series
  is 2, but \<open>minv\<close> is \<open>-1\<close> and \<open>lst\<close> is 5.\<close>

theorem statistics_pass_counterexample:
  "ring_values (written [[Fin 2, Fin (- 1), Fin 5]]) = [Fin 2, Fin (- 1), Fin 5] \<and>
   positives (ring_values (written [[Fin 2, Fin (- 1), Fin 5]])) = [Fin 2, Fin 5] \<and>
   minv (plotRing_stats exact_machine (written [[Fin 2, Fin (- 1), Fin 5]])) = Fin (- 1) \<and>
   lst (plotRing_stats exact_machine (written [[Fin 2, Fin (- 1), Fin 5]])) = Fin 5"
proof -
  let ?r = "written [[Fin 2, Fin (- 1), Fin 5]]"
  have vs: "ring_values ?r = [Fin 2, Fin (- 1), Fin 5]"
    by (simp add: ring_values_written)
  show ?thesis
    by (simp add: plotRing_stats_values vs positives_def fgt_def init_vars_def
        stat_value_minv stat_value_lst)
qed


subsection \<open>The drawing pass and the tick\<close>

lemma plot_value_ops:
  "\<exists>l. is_DrawLine l \<and> ops (plot_value m mx vs i prev jv rd) = ops rd @ [l]"
  by (cases jv)
    (simp add: plot_value_def Let_def drawLine_def emit_def SetDrawColor_def split: prod.splits)

lemma fold_plot_value_ops:
  "\<exists>ls. list_all is_DrawLine ls \<and> ops (fold (plot_value m mx vs i prev) jvs rd) = ops rd @ ls"
proof (induction jvs arbitrary: rd)
  case Nil
  show ?case by simp
next
  case (Cons jv jvs)
  obtain l where l: "is_DrawLine l" "ops (plot_value m mx vs i prev jv rd) = ops rd @ [l]"
    using plot_value_ops by blast
  from Cons.IH [of "plot_value m mx vs i prev jv rd"] obtain ls where
    ls: "list_all is_DrawLine ls"
        "ops (fold (plot_value m mx vs i prev) jvs (plot_value m mx vs i prev jv rd))
           = ops (plot_value m mx vs i prev jv rd) @ ls"
    by blast
  from l ls show ?case
    by (intro exI [of _ "l # ls"]) simp
qed

lemma plot_slot_ops:
  "\<exists>d' rd' ls. plot_slot m mx vs x (i, d, rd) = (i + 1, d', rd') \<and>
     list_all is_DrawLine ls \<and> ops rd' = ops rd @ ls"
  using fold_plot_value_ops [of m mx vs i d "zip [0 ..< length (assert_sample x)] (assert_sample x)" rd]
  by (auto simp: plot_slot_def Let_def)

lemma fold_plot_slot_ops:
  "\<exists>d' rd' ls. fold (plot_slot m mx vs) xs (i, d, rd) = (i + of_nat (length xs), d', rd') \<and>
     list_all is_DrawLine ls \<and> ops rd' = ops rd @ ls"
proof (induction xs arbitrary: i d rd)
  case Nil
  show ?case by simp
next
  case (Cons x xs)
  obtain d1 rd1 ls1 where
    s1: "plot_slot m mx vs x (i, d, rd) = (i + 1, d1, rd1)"
        "list_all is_DrawLine ls1" "ops rd1 = ops rd @ ls1"
    using plot_slot_ops by blast
  from Cons.IH [of "i + 1" d1 rd1] obtain d' rd' ls where
    s2: "fold (plot_slot m mx vs) xs (i + 1, d1, rd1) = (i + 1 + of_nat (length xs), d', rd')"
        "list_all is_DrawLine ls" "ops rd' = ops rd1 @ ls"
    by blast
  from s1 s2 show ?case
    by (intro exI [of _ d'] exI [of _ rd'] exI [of _ "ls1 @ ls"]) (simp add: add.assoc add.commute)
qed

lemma plotRing_ops:
  "\<exists>ls. list_all is_DrawLine ls \<and>
     ops (plotRing m g r host tgtnum rd color) =
       ops rd @
       [DrawRect color windowMargin (tgtnum * targetSize + 1 + windowMargin + 15)
          (windowWidth g - windowMargin * 2) panelHeight,
        DrawText color windowMargin (tgtnum * targetSize + 1 + windowMargin - 3) (Text host)] @
       ls @
       [DrawText color windowMargin (tgtnum * targetSize + 1 + windowMargin + panelHeight + 15)
          (Sprintf ''L=%.1f M=%.1f A=%.1f''
             [Num (lst (plotRing_stats m r)), Num (maxv (plotRing_stats m r)),
              Num (plotRing_avg m r)])]"
proof -
  let ?vs = "tgtnum * targetSize + 1"
  let ?rd3 = "drawText color windowMargin (?vs + windowMargin - 3) (Text host)
     (drawRect windowMargin (?vs + windowMargin + 15) (windowWidth g - windowMargin * 2)
        panelHeight (SetDrawColor color rd))"
  let ?s = "plotRing_stats m r"
  obtain d' rd' ls where
    f: "fold (plot_slot m (maxv ?s) ?vs) (ring_Do_list r) (0, data ?s, ?rd3)
          = (0 + of_nat (length (ring_Do_list r)), d', rd')"
       "list_all is_DrawLine ls" "ops rd' = ops ?rd3 @ ls"
    using fold_plot_slot_ops by blast
  have "ops ?rd3 = ops rd @
       [DrawRect color windowMargin (?vs + windowMargin + 15)
          (windowWidth g - windowMargin * 2) panelHeight,
        DrawText color windowMargin (?vs + windowMargin - 3) (Text host)]"
    by (simp add: drawText_def drawRect_def emit_def SetDrawColor_def)
  with f show ?thesis
    by (intro exI [of _ ls])
      (simp add: plotRing_def Let_def ring_Do_def plotRing_avg_def drawText_def emit_def)
qed


text \<open>
  C4. In a tick in which no sample is ready the \<^verbatim>\<open>select\<close> takes its default branch
  and writes nothing: the panel is returned as it was, every slot and the cursor of its
  ring included. \<^verbatim>\<open>plotRing\<close> then draws the border, the label and the statistics
  line of the panel in \<^verbatim>\<open>errColor\<close>; between them it only draws lines of the plot.
  The colour is chosen in each tick: a tick with a sample gives \<^verbatim>\<open>fg\<close>.
\<close>

theorem stale_tick:
  "collect g p None = Inr (p, errColor) \<and>
   (\<exists>rd' ls. panel_tick m g i p None rd = Inr (p, rd') \<and>
      list_all is_DrawLine ls \<and>
      ops rd' =
        ops rd @
        [DrawRect errColor windowMargin (of_nat i * targetSize + 1 + windowMargin + 15)
           (windowWidth g - windowMargin * 2) panelHeight,
         DrawText errColor windowMargin (of_nat i * targetSize + 1 + windowMargin - 3)
           (Text (target p))] @
        ls @
        [DrawText errColor windowMargin
           (of_nat i * targetSize + 1 + windowMargin + panelHeight + 15)
           (Sprintf ''L=%.1f M=%.1f A=%.1f''
              [Num (lst (plotRing_stats m (ring p))), Num (maxv (plotRing_stats m (ring p))),
               Num (plotRing_avg m (ring p))])]) \<and>
   (slots (ring p) \<noteq> [] \<longrightarrow>
      (\<exists>p'. collect g p (Some v) = Inr (p', fg g)))"
proof -
  have c: "collect g p None = Inr (p, errColor)"
    by (simp add: collect_def)
  then have t: "panel_tick m g i p None rd
      = Inr (p, plotRing m g (ring p) (target p) (of_nat i) rd errColor)"
    by (simp add: panel_tick_def)
  from plotRing_ops [of m g "ring p" "target p" "of_nat i" rd errColor] t c
  show ?thesis by (auto simp: collect_def)
qed

theorem stale_tick_witness:
  "collect init_globals
      \<lparr> ptyp = ''lagsine'', target = ''localhost'', channel = 0, ring = written [[Fin 1]] \<rparr> None
     = Inr (\<lparr> ptyp = ''lagsine'', target = ''localhost'', channel = 0, ring = written [[Fin 1]] \<rparr>,
            errColor) \<and>
   (\<exists>p'. collect init_globals
      \<lparr> ptyp = ''lagsine'', target = ''localhost'', channel = 0, ring = written [[Fin 1]] \<rparr>
      (Some [Fin 2]) = Inr (p', fg init_globals))"
proof -
  have "ring_Do_list (written [[Fin 1]]) \<noteq> []"
    by (simp add: written_Do_list)
  then have "slots (written [[Fin 1]]) \<noteq> []"
    by (auto simp: ring_Do_list_def)
  with stale_tick [of init_globals
      "\<lparr> ptyp = ''lagsine'', target = ''localhost'', channel = 0, ring = written [[Fin 1]] \<rparr>"
      exact_machine 0 blank "[Fin 2]"]
  show ?thesis by simp
qed

lemma all_None_Do_list:
  assumes "\<forall>x \<in> set (slots r). x = None"
  shows "\<forall>x \<in> set (ring_Do_list r). x = None"
proof
  fix x assume "x \<in> set (ring_Do_list r)"
  then have "x \<in> set (slots r)"
    by (auto simp: ring_Do_list_def dest: in_set_dropD in_set_takeD)
  with assms show "x = None" by blast
qed

lemma stats_all_None:
  assumes "\<forall>x \<in> set (slots r). x = None"
  shows "plotRing_stats m r = init_vars"
proof -
  from all_None_Do_list [OF assms] have n: "\<forall>x \<in> set (ring_Do_list r). x = None" .
  then have rv: "ring_values r = []"
    by (auto simp: ring_values_def assert_sample_def)
  have dt: "assert_sample (last (ring_Do_list r)) = []" if "ring_Do_list r \<noteq> []"
  proof -
    from that have "last (ring_Do_list r) \<in> set (ring_Do_list r)" by (rule last_in_set)
    with n have "last (ring_Do_list r) = None" by blast
    then show ?thesis by (simp add: assert_sample_def)
  qed
  show ?thesis
    by (simp add: plotRing_stats_values rv dt init_vars_def)
qed

lemma fold_plot_slot_all_None:
  assumes "\<forall>x \<in> set xs. x = None"
  shows "fold (plot_slot m mx vs) xs (i, [], rd) = (i + of_nat (length xs), [], rd)"
  using assms
proof (induction xs arbitrary: i)
  case Nil
  show ?case by simp
next
  case (Cons x xs)
  from Cons.prems have "x = None" by simp
  then have "plot_slot m mx vs x (i, [], rd) = (i + 1, [], rd)"
    by (simp add: plot_slot_def assert_sample_def)
  moreover from Cons.prems have "\<forall>x \<in> set xs. x = None" by simp
  note Cons.IH [OF this, of "i + 1"]
  ultimately show ?case by (simp add: add.assoc add.commute)
qed

lemma plotRing_all_None:
  assumes "\<forall>x \<in> set (slots r). x = None"
  shows "plotRing m g r host tgtnum rd color =
     rd \<lparr> drawColor := color,
          ops := ops rd @
            [DrawRect color windowMargin (tgtnum * targetSize + 1 + windowMargin + 15)
               (windowWidth g - windowMargin * 2) panelHeight,
             DrawText color windowMargin (tgtnum * targetSize + 1 + windowMargin - 3) (Text host),
             DrawText color windowMargin (tgtnum * targetSize + 1 + windowMargin + panelHeight + 15)
               (Sprintf ''L=%.1f M=%.1f A=%.1f'' [Num (Fin 0), Num (Fin 0), Num NaN])] \<rparr>"
proof -
  note f = fold_plot_slot_all_None [OF all_None_Do_list [OF assms]]
  show ?thesis
    by (simp add: plotRing_def Let_def ring_Do_def stats_all_None [OF assms] f init_vars_def
        float64_def drawText_def drawRect_def emit_def SetDrawColor_def)
qed

text \<open>
  C8. A panel none of whose slots was ever written, in a tick without a sample (and so
  in every tick, when the probe never delivers): the tick returns, with the panel
  unchanged; the statistics pass counts no positive value, the average is \<open>0 / 0\<close>, not
  a number, and is passed as such to the statistics line; the border rectangle, the label
  and the statistics line are drawn in \<^verbatim>\<open>errColor\<close> and no line of a plot is drawn.
  Any number of such ticks returns.
\<close>

theorem silent_probe_panel:
  assumes "\<forall>x \<in> set (slots (ring p)). x = None"
  shows "panel_tick m g i p None rd =
           Inr (p, rd \<lparr> drawColor := errColor,
                   ops := ops rd @
                     [DrawRect errColor windowMargin (of_nat i * targetSize + 1 + windowMargin + 15)
                        (windowWidth g - windowMargin * 2) panelHeight,
                      DrawText errColor windowMargin (of_nat i * targetSize + 1 + windowMargin - 3)
                        (Text (target p)),
                      DrawText errColor windowMargin
                        (of_nat i * targetSize + 1 + windowMargin + panelHeight + 15)
                        (Sprintf ''L=%.1f M=%.1f A=%.1f'' [Num (Fin 0), Num (Fin 0), Num NaN])] \<rparr>) \<and>
         cnt (plotRing_stats m (ring p)) = 0 \<and>
         plotRing_avg m (ring p) = NaN \<and>
         (\<exists>rd'. panel_ticks m g i p (replicate n None) rd = Inr (p, rd'))"
proof -
  have tick: "panel_tick m g i p None rd' =
      Inr (p, plotRing m g (ring p) (target p) (of_nat i) rd' errColor)" for rd'
    by (simp add: panel_tick_def collect_def)
  have one: "panel_tick m g i p None rd =
           Inr (p, rd \<lparr> drawColor := errColor,
                   ops := ops rd @
                     [DrawRect errColor windowMargin (of_nat i * targetSize + 1 + windowMargin + 15)
                        (windowWidth g - windowMargin * 2) panelHeight,
                      DrawText errColor windowMargin (of_nat i * targetSize + 1 + windowMargin - 3)
                        (Text (target p)),
                      DrawText errColor windowMargin
                        (of_nat i * targetSize + 1 + windowMargin + panelHeight + 15)
                        (Sprintf ''L=%.1f M=%.1f A=%.1f'' [Num (Fin 0), Num (Fin 0), Num NaN])] \<rparr>)"
    by (simp only: tick plotRing_all_None [OF assms])
  have st: "cnt (plotRing_stats m (ring p)) = 0" "plotRing_avg m (ring p) = NaN"
    by (simp_all add: plotRing_avg_def stats_all_None [OF assms] init_vars_def float64_def)
  have many: "\<exists>rd'. panel_ticks m g i p (replicate n None) rd = Inr (p, rd')"
  proof (induction n arbitrary: rd)
    case 0
    show ?case by simp
  next
    case (Suc n)
    from Suc.IH [of "plotRing m g (ring p) (target p) (of_nat i) rd errColor"]
    show ?case by (simp add: tick)
  qed
  from one st many show ?thesis by blast
qed

theorem silent_probe_panel_witness:
  "panel_tick exact_machine init_globals 0
      \<lparr> ptyp = ''lagsine'', target = ''localhost'', channel = 0, ring = ring_New 168 \<rparr> None blank
     = Inr (\<lparr> ptyp = ''lagsine'', target = ''localhost'', channel = 0, ring = ring_New 168 \<rparr>,
            \<lparr> drawColor = Color 0xFF 0x64 0x64 0xFF,
              ops = [DrawRect (Color 0xFF 0x64 0x64 0xFF) 5 21 170 45,
                     DrawText (Color 0xFF 0x64 0x64 0xFF) 5 3 (Text ''localhost''),
                     DrawText (Color 0xFF 0x64 0x64 0xFF) 5 66
                       (Sprintf ''L=%.1f M=%.1f A=%.1f'' [Num (Fin 0), Num (Fin 0), Num NaN])] \<rparr>) \<and>
   plotRing_avg exact_machine (ring_New 168) = NaN"
proof -
  have n: "\<forall>x \<in> set (slots (ring
      \<lparr> ptyp = ''lagsine'', target = ''localhost'', channel = 0, ring = ring_New 168 \<rparr>)). x = None"
    by (simp add: ring_New_def)
  from silent_probe_panel [OF n, of exact_machine init_globals 0 blank 1]
  show ?thesis
    by (simp add: blank_def errColor_def windowMargin_def targetSize_def panelHeight_def
        init_globals_def)
qed


lemma plot_value_positive:
  assumes "fgt v (Fin 0)"
  shows "ops (plot_value m mx vs i prev (j, v) rd) =
     ops rd @ [positive_line m mx vs i prev j v (drawColor rd)]"
proof -
  from assms have "v \<noteq> NaN" by (auto simp: fgt_def)
  with assms show ?thesis
    by (simp add: plot_value_def positive_line_def Let_def IsNaN_def drawLine_def emit_def
        SetDrawColor_def)
qed

lemma fold_plot_value_member:
  assumes "(j, v) \<in> set jvs" and "fgt v (Fin 0)"
  shows "\<exists>c0. positive_line m mx vs i prev j v c0
      \<in> set (ops (fold (plot_value m mx vs i prev) jvs rd))"
  using assms(1)
proof (induction jvs arbitrary: rd)
  case Nil
  then show ?case by simp
next
  case (Cons jv jvs)
  let ?rd1 = "plot_value m mx vs i prev jv rd"
  show ?case
  proof (cases "jv = (j, v)")
    case True
    obtain ls where ls: "ops (fold (plot_value m mx vs i prev) jvs ?rd1) = ops ?rd1 @ ls"
      using fold_plot_value_ops by blast
    from True have "ops ?rd1 = ops rd @ [positive_line m mx vs i prev j v (drawColor rd)]"
      by (simp only: plot_value_positive [OF assms(2)])
    with ls have "positive_line m mx vs i prev j v (drawColor rd)
        \<in> set (ops (fold (plot_value m mx vs i prev) (jv # jvs) rd))"
      by simp
    then show ?thesis ..
  next
    case False
    with Cons.prems have "(j, v) \<in> set jvs" by simp
    from Cons.IH [OF this, of ?rd1] show ?thesis by simp
  qed
qed

lemma plot_slot_member:
  assumes "j < length d" and "fgt (d ! j) (Fin 0)"
  shows "\<exists>rd' c0. plot_slot m mx vs (Some d) (i, prev, rd) = (i + 1, d, rd') \<and>
      positive_line m mx vs i prev j (d ! j) c0 \<in> set (ops rd')"
proof -
  from assms(1) have "(j, d ! j) \<in> set (zip [0 ..< length d] d)"
    by (auto simp: in_set_zip intro!: exI [of _ j])
  from fold_plot_value_member [OF this assms(2), of m mx vs i prev rd]
  show ?thesis
    by (simp add: plot_slot_def Let_def assert_sample_def)
qed

lemma plot_slot_data:
  "\<exists>rd' ls. plot_slot m mx vs x (i, d, rd) = (i + 1, assert_sample x, rd') \<and> ops rd' = ops rd @ ls"
  using fold_plot_value_ops [of m mx vs i d "zip [0 ..< length (assert_sample x)] (assert_sample x)" rd]
  by (auto simp: plot_slot_def Let_def)

lemma fold_plot_slot_member:
  assumes "k < length xs" and "xs ! k = Some d" and "j < length d" and "fgt (d ! j) (Fin 0)"
  shows "\<exists>i' d' rd' c0. fold (plot_slot m mx vs) xs (i, d0, rd) = (i', d', rd') \<and>
      positive_line m mx vs (i + of_nat k)
        (if k = 0 then d0 else assert_sample (xs ! (k - 1))) j (d ! j) c0 \<in> set (ops rd')"
  using assms(1,2)
proof (induction xs arbitrary: i d0 rd k)
  case Nil
  then show ?case by simp
next
  case (Cons x xs)
  show ?case
  proof (cases k)
    case 0
    with Cons.prems have x: "x = Some d" by simp
    from plot_slot_member [OF assms(3,4), of m mx vs i d0 rd] obtain rd1 c0 where
      s1: "plot_slot m mx vs (Some d) (i, d0, rd) = (i + 1, d, rd1)"
      and l1: "positive_line m mx vs i d0 j (d ! j) c0 \<in> set (ops rd1)"
      by blast
    obtain d' rd' ls where
      s2: "fold (plot_slot m mx vs) xs (i + 1, d, rd1) = (i + 1 + of_nat (length xs), d', rd')"
          "ops rd' = ops rd1 @ ls"
      using fold_plot_slot_ops by blast
    from l1 s2(2) have l2: "positive_line m mx vs i d0 j (d ! j) c0 \<in> set (ops rd')"
      by simp
    have run: "fold (plot_slot m mx vs) (x # xs) (i, d0, rd) = (i + 1 + of_nat (length xs), d', rd')"
      using s1 s2(1) x by simp
    from l2 0 run show ?thesis by auto
  next
    case (Suc k')
    with Cons.prems have k': "k' < length xs" "xs ! k' = Some d" by simp_all
    obtain rd1 ls1 where
      s1: "plot_slot m mx vs x (i, d0, rd) = (i + 1, assert_sample x, rd1)"
      using plot_slot_data by blast
    have prev: "(if k' = 0 then assert_sample x else assert_sample (xs ! (k' - 1)))
        = assert_sample ((x # xs) ! k')"
      by (cases k') simp_all
    from Cons.IH [OF k', of "i + 1" "assert_sample x" rd1] s1 Suc show ?thesis
      unfolding prev by (simp add: add.assoc)
  qed
qed

lemma positive_line_first_series:
  "positive_line m mx vs i prev 0 v c0 =
     DrawLine (plotColors ! 0) (windowMargin + i) (vs + windowMargin + panelHeight + 13 - vh m mx v)
       (windowMargin + i) (vs + windowMargin + panelHeight + 13)"
  by (simp add: positive_line_def plotColors_def)

text \<open>
  C5, as the code has it. A positive value \<open>v\<close> is projected to the height
  \<open>vh v = int32((v / maxv) * float64(panelHeight - 2)) - 1\<close>, computed in
  \<^verbatim>\<open>float64\<close> (the quotient and the product rounded, the result truncated), where
  \<open>maxv\<close> is the greatest value of all series and all slots of the ring in this tick;
  so the same \<open>v\<close> under another maximum is projected with that maximum in the place of
  \<open>maxv\<close>. In the column \<open>windowMargin + k\<close> of its slot, a value of the first series
  is drawn as the line from the baseline up by \<open>vh v\<close>. A value of a later series \<open>j\<close>,
  in a slot after the first of the traversal, is drawn in the same way when the sample
  of the slot before has no series \<open>j\<close>, and otherwise as the segment between the
  heights \<open>vh v\<close> and \<open>vh (prev ! j)\<close> above the baseline.
\<close>

theorem column_height:
  assumes "k < length (ring_Do_list r)"
    and "ring_Do_list r ! k = Some d"
    and "j < length d"
    and "fgt (d ! j) (Fin 0)"
    and "j = 0 \<or> 0 < k"
  shows "(\<exists>c0. positive_line m (maxv (plotRing_stats m r)) (tgtnum * targetSize + 1) (of_nat k)
                 (assert_sample (ring_Do_list r ! (k - 1))) j (d ! j) c0
               \<in> set (ops (plotRing m g r host tgtnum rd color))) \<and>
         vh m (maxv (plotRing_stats m r)) (d ! j) =
           int32 m (fmul m (fdiv m (d ! j) (maxv (plotRing_stats m r)))
                      (float64 (panelHeight - 2))) - 1 \<and>
         maxv (plotRing_stats m r) \<in> set (ring_values r) \<and>
         (\<forall>u \<in> set (ring_values r). \<not> flt (maxv (plotRing_stats m r)) u)"
proof -
  let ?s = "plotRing_stats m r"
  let ?vs = "tgtnum * targetSize + 1"
  let ?rd3 = "drawText color windowMargin (?vs + windowMargin - 3) (Text host)
     (drawRect windowMargin (?vs + windowMargin + 15) (windowWidth g - windowMargin * 2)
        panelHeight (SetDrawColor color rd))"
  let ?prev = "if k = 0 then data ?s else assert_sample (ring_Do_list r ! (k - 1))"
  from fold_plot_slot_member [OF assms(1-4), of m "maxv ?s" ?vs 0 "data ?s" ?rd3]
  obtain i' d' rd' c0 where
    f: "fold (plot_slot m (maxv ?s) ?vs) (ring_Do_list r) (0, data ?s, ?rd3) = (i', d', rd')"
    and l: "positive_line m (maxv ?s) ?vs (0 + of_nat k) ?prev j (d ! j) c0 \<in> set (ops rd')"
    by blast
  have final: "set (ops rd') \<subseteq> set (ops (plotRing m g r host tgtnum rd color))"
    using f by (auto simp: plotRing_def Let_def ring_Do_def drawText_def emit_def)
  have same: "positive_line m (maxv ?s) ?vs (0 + of_nat k) ?prev j (d ! j) c0
      = positive_line m (maxv ?s) ?vs (of_nat k) (assert_sample (ring_Do_list r ! (k - 1))) j (d ! j) c0"
  proof (cases "k = 0")
    case True
    with assms(5) have "j = 0" by simp
    then show ?thesis by (simp add: positive_line_first_series)
  next
    case False
    then show ?thesis by simp
  qed
  from l final have "positive_line m (maxv ?s) ?vs (of_nat k)
      (assert_sample (ring_Do_list r ! (k - 1))) j (d ! j) c0
      \<in> set (ops (plotRing m g r host tgtnum rd color))"
    unfolding same by (rule subsetD [rotated])
  then have line: "\<exists>c0. positive_line m (maxv ?s) ?vs (of_nat k)
      (assert_sample (ring_Do_list r ! (k - 1))) j (d ! j) c0
      \<in> set (ops (plotRing m g r host tgtnum rd color))" ..
  from assms(1,2) have "Some d \<in> set (ring_Do_list r)"
    by (metis nth_mem)
  with assms(3) have vin: "d ! j \<in> set (ring_values r)"
    by (force simp: ring_values_def assert_sample_def)
  with assms(4) have pos: "d ! j \<in> set (positives (ring_values r))"
    by (simp add: positives_def)
  have sel: "maxv ?s = maxv (fold (stat_value m) (ring_values r) init_vars)"
    by (simp add: plotRing_stats_values)
  from pos have ne: "positives (ring_values r) \<noteq> []" by auto
  from stats_maxv [of "ring_values r" m] ne
  have "maxv ?s \<in> set (positives (ring_values r))"
    and mx2: "\<forall>u \<in> set (ring_values r). \<not> flt (maxv ?s) u"
    unfolding sel by blast+
  then have mx1: "maxv ?s \<in> set (ring_values r)" by (simp add: positives_def)
  from line mx1 mx2 show ?thesis by (simp add: vh_def)
qed


subsection \<open>Concrete runs of the drawing pass\<close>

lemma written_Do_list_short:
  assumes "length vs \<le> 168"
  shows "ring_Do_list (written vs) = replicate (168 - length vs) None @ map Some vs"
  using assms by (simp add: written_Do_list)

lemma plot_slot_None: "plot_slot m mx vs None (i, d, rd) = (i + 1, [], rd)"
  by (simp add: plot_slot_def assert_sample_def)

lemma fold_plot_slot_None_prefix:
  "fold (plot_slot m mx vs) (replicate n None @ xs) (i, d, rd)
     = fold (plot_slot m mx vs) xs (i + of_nat n, if n = 0 then d else [], rd)"
proof (cases n)
  case 0
  then show ?thesis by simp
next
  case (Suc k)
  have "fold (plot_slot m mx vs) (replicate k None) (i + 1, [], rd)
      = (i + 1 + of_nat (length (replicate k (None :: sample option))), [], rd)"
    by (rule fold_plot_slot_all_None) simp
  with Suc show ?thesis
    by (simp add: plot_slot_None ac_simps)
qed

lemma fold_plot_slot_written:
  assumes "length vs < 168"
  shows "fold (plot_slot m mx off) (ring_Do_list (written vs)) (i, d, rd)
     = fold (plot_slot m mx off) (map Some vs) (i + of_nat (168 - length vs), [], rd)"
proof -
  from assms have D: "ring_Do_list (written vs) = replicate (168 - length vs) None @ map Some vs"
    by (simp add: written_Do_list_short)
  from assms have "168 - length vs \<noteq> 0" by simp
  then show ?thesis
    unfolding D fold_plot_slot_None_prefix by simp
qed

lemma stats_written:
  assumes "length vs \<le> 168"
  shows "maxv (plotRing_stats m (written vs)) = maxv (fold (stat_value m) (concat vs) init_vars)"
    and "lst (plotRing_stats m (written vs)) = lst (fold (stat_value m) (concat vs) init_vars)"
    and "tot (plotRing_stats m (written vs)) = tot (fold (stat_value m) (concat vs) init_vars)"
    and "cnt (plotRing_stats m (written vs)) = cnt (fold (stat_value m) (concat vs) init_vars)"
  using assms by (simp_all add: plotRing_stats_values ring_values_written)

lemmas eval_stats = stats_written plotRing_avg_def init_vars_def stat_value_maxv stat_value_lst
  stat_value_tot stat_value_cnt fgt_def exact_rnd float64_def

lemmas eval_draw = plot_slot_def plot_value_def assert_sample_def vh_def int32_def trunc_def
  min32_def max32_def IsNaN_def drawLine_def drawText_def drawRect_def emit_def SetDrawColor_def
  plotColors_def errColor_def windowMargin_def panelHeight_def targetSize_def init_globals_def
  blank_def exact_machine_def Let_def float64_def fgt_def

text \<open>A value that is not a number changes no variable of the statistics pass but
  \<open>lst\<close>, and it is always drawn in the error colour. In the first series, or where
  the slot before has no value of its series, it is the column of height
  \<open>panelHeight - 1\<close>; in a later series after a slot with a value of that series, the
  line is drawn between two values of \<open>vh\<close>, one of them \<open>vh NaN\<close>.\<close>

lemma flt_NaN: "\<not> flt a NaN"
  by (cases a) simp_all

lemma stat_value_NaN: "stat_value m NaN s = s \<lparr> lst := NaN \<rparr>"
  by (simp add: stat_value_def fgt_def flt_NaN Let_def)

lemma plot_value_NaN_colour:
  "drawColor (plot_value m mx vs i prev (j, NaN) rd) = errColor"
  by (simp add: plot_value_def Let_def IsNaN_def drawLine_def emit_def SetDrawColor_def
      split: prod.splits)

lemma plot_value_NaN_full_height:
  assumes "j = 0 \<or> length prev \<le> j"
  shows "plot_value m mx vs i prev (j, NaN) rd =
     drawLine (windowMargin + i) (vs + windowMargin + panelHeight + 13 - (panelHeight - 1))
       (windowMargin + i) (vs + windowMargin + panelHeight + 13) (SetDrawColor errColor rd)"
  using assms by (auto simp: plot_value_def Let_def IsNaN_def)

lemma plot_value_NaN_later_series:
  assumes "0 < j" and "j < length prev"
  shows "plot_value m mx vs i prev (j, NaN) rd =
     drawLine (windowMargin + i)
       (vs + windowMargin + panelHeight + 13 - min32 (vh m mx NaN) (vh m mx (prev ! j)))
       (windowMargin + i)
       (vs + windowMargin + panelHeight + 13 - max32 (vh m mx NaN) (vh m mx (prev ! j)))
       (SetDrawColor errColor rd)"
  using assms by (simp add: plot_value_def Let_def IsNaN_def)


text \<open>
  C3 says that a value that is not a number is drawn as a column of full height in the
  error colour whatever its series, and stays out of the statistics. The run below has
  the samples \<open>[1, 1]\<close> and \<open>[NaN, NaN]\<close>. The statistics ignore both \<open>NaN\<close>s
  (\<open>maxv = 1\<close>, average \<open>1\<close>) and both are drawn in \<^verbatim>\<open>errColor\<close>. The one of the
  first series is the column of height \<open>panelHeight - 1 = 44\<close>, from 20 to the baseline
  64. For the one of the second series the height \<open>h\<close> just computed is not used: the
  line is drawn between \<open>vh\<close> of the value and \<open>vh\<close> of the value before it, and
  \<open>vh NaN\<close> converts a \<open>NaN\<close> to \<^verbatim>\<open>int32\<close>; on this machine the line runs from 22
  to 2147483713.
\<close>

theorem nan_in_later_series:
  "plotRing exact_machine init_globals (written [[Fin 1, Fin 1], [NaN, NaN]]) ''b'' 0 blank
     (fg init_globals) =
   \<lparr> drawColor = Color 0xFF 0x64 0x64 0xFF,
     ops = [DrawRect (Color 0xFF 0xFF 0xFF 0xFF) 5 21 170 45,
            DrawText (Color 0xFF 0xFF 0xFF 0xFF) 5 3 (Text ''b''),
            DrawLine (Color 0x00 0xFF 0x00 0xFF) 171 22 171 64,
            DrawLine (Color 0x00 0x00 0xFF 0xFF) 171 22 171 64,
            DrawLine (Color 0xFF 0x64 0x64 0xFF) 172 20 172 64,
            DrawLine (Color 0xFF 0x64 0x64 0xFF) 172 22 172 2147483713,
            DrawText (Color 0xFF 0xFF 0xFF 0xFF) 5 66
              (Sprintf ''L=%.1f M=%.1f A=%.1f'' [Num NaN, Num (Fin 1), Num (Fin 1)])] \<rparr>"
  apply (simp add: plotRing_def ring_Do_def fold_plot_slot_written eval_stats)
  apply (simp add: eval_draw upt_conv_Cons del: upt_Suc)
  done

text \<open>One sample \<open>[1]\<close>: the value is the maximum, and its column is 42 high (from 22
  to the baseline 64), not \<open>1 / 1 * panelHeight = 45\<close>. Two samples \<open>[2, 1]\<close> and
  \<open>[2, 2]\<close>: the value 2 of the second series in the second slot is the maximum too,
  and it is drawn as the segment from 44 to 22, between the heights \<open>vh 1 = 20\<close> and
  \<open>vh 2 = 42\<close>, not as a column from the baseline.\<close>

theorem column_height_counterexample:
  "plotRing exact_machine init_globals (written [[Fin 1]]) ''h'' 0 blank (fg init_globals) =
   \<lparr> drawColor = Color 0x00 0xFF 0x00 0xFF,
     ops = [DrawRect (Color 0xFF 0xFF 0xFF 0xFF) 5 21 170 45,
            DrawText (Color 0xFF 0xFF 0xFF 0xFF) 5 3 (Text ''h''),
            DrawLine (Color 0x00 0xFF 0x00 0xFF) 172 22 172 64,
            DrawText (Color 0xFF 0xFF 0xFF 0xFF) 5 66
              (Sprintf ''L=%.1f M=%.1f A=%.1f'' [Num (Fin 1), Num (Fin 1), Num (Fin 1)])] \<rparr> \<and>
   maxv (plotRing_stats exact_machine (written [[Fin 1]])) = Fin 1 \<and>
   (64 - 22 :: int32) = 42 \<and>
   fmul exact_machine (fdiv exact_machine (Fin 1) (Fin 1)) (float64 panelHeight) = Fin 45 \<and>
   plotRing exact_machine init_globals (written [[Fin 2, Fin 1], [Fin 2, Fin 2]]) ''h'' 0 blank
     (fg init_globals) =
   \<lparr> drawColor = Color 0x00 0x00 0xFF 0xFF,
     ops = [DrawRect (Color 0xFF 0xFF 0xFF 0xFF) 5 21 170 45,
            DrawText (Color 0xFF 0xFF 0xFF 0xFF) 5 3 (Text ''h''),
            DrawLine (Color 0x00 0xFF 0x00 0xFF) 171 22 171 64,
            DrawLine (Color 0x00 0x00 0xFF 0xFF) 171 44 171 64,
            DrawLine (Color 0x00 0xFF 0x00 0xFF) 172 22 172 64,
            DrawLine (Color 0x00 0x00 0xFF 0xFF) 172 44 172 22,
            DrawText (Color 0xFF 0xFF 0xFF 0xFF) 5 66
              (Sprintf ''L=%.1f M=%.1f A=%.1f'' [Num (Fin 2), Num (Fin 2), Num (Fin (7 / 4))])] \<rparr>"
  apply (simp add: plotRing_def ring_Do_def fold_plot_slot_written eval_stats)
  apply (simp add: eval_draw upt_conv_Cons del: upt_Suc)
  done

lemma vh_exact_values:
  "vh exact_machine (Fin 2) (Fin 1) = 20"
  "vh exact_machine (Fin 4) (Fin 1) = 9"
  "vh exact_machine (Fin 2) (Fin 2) = 42"
  by (simp_all add: vh_def int32_def trunc_def float64_def panelHeight_def exact_machine_def)

theorem column_height_witness:
  "DrawLine (Color 0x00 0xFF 0x00 0xFF) 171 44 171 64
     \<in> set (ops (plotRing exact_machine init_globals (written [[Fin 1], [Fin 2]]) ''h'' 0 blank
                 (fg init_globals))) \<and>
   maxv (plotRing_stats exact_machine (written [[Fin 1], [Fin 2]])) = Fin 2 \<and>
   DrawLine (Color 0x00 0xFF 0x00 0xFF) 171 55 171 64
     \<in> set (ops (plotRing exact_machine init_globals (written [[Fin 1], [Fin 4]]) ''h'' 0 blank
                 (fg init_globals))) \<and>
   maxv (plotRing_stats exact_machine (written [[Fin 1], [Fin 4]])) = Fin 4 \<and>
   DrawLine (Color 0x00 0x00 0xFF 0xFF) 172 44 172 22
     \<in> set (ops (plotRing exact_machine init_globals (written [[Fin 2, Fin 1], [Fin 2, Fin 2]])
                 ''h'' 0 blank (fg init_globals)))"
proof -
  let ?r1 = "written [[Fin 1], [Fin 2]]"
  let ?r2 = "written [[Fin 1], [Fin 4]]"
  let ?r3 = "written [[Fin 2, Fin 1], [Fin 2, Fin 2]]"
  have D1: "ring_Do_list ?r1 = replicate 166 None @ [Some [Fin 1], Some [Fin 2]]"
    by (simp add: written_Do_list_short)
  have D2: "ring_Do_list ?r2 = replicate 166 None @ [Some [Fin 1], Some [Fin 4]]"
    by (simp add: written_Do_list_short)
  have D3: "ring_Do_list ?r3 = replicate 166 None @ [Some [Fin 2, Fin 1], Some [Fin 2, Fin 2]]"
    by (simp add: written_Do_list_short)
  have k1: "166 < length (ring_Do_list ?r1)" "ring_Do_list ?r1 ! 166 = Some [Fin 1]"
    by (simp_all add: D1 nth_append)
  have k2: "166 < length (ring_Do_list ?r2)" "ring_Do_list ?r2 ! 166 = Some [Fin 1]"
    by (simp_all add: D2 nth_append)
  have k3: "167 < length (ring_Do_list ?r3)" "ring_Do_list ?r3 ! 167 = Some [Fin 2, Fin 2]"
    by (simp_all add: D3 nth_append)
  have p3: "assert_sample (ring_Do_list ?r3 ! 166) = [Fin 2, Fin 1]"
    by (simp add: D3 nth_append assert_sample_def)
  have j0: "0 < length [Fin 1]" "fgt ([Fin 1] ! 0) (Fin 0)" "(0::nat) = 0 \<or> (0::nat) < 166"
    by (simp_all add: fgt_def)
  have j1: "1 < length [Fin 2, Fin 2]" "fgt ([Fin 2, Fin 2] ! 1) (Fin 0)" "(1::nat) = 0 \<or> (0::nat) < 167"
    by (simp_all add: fgt_def)
  have M: "maxv (plotRing_stats exact_machine ?r1) = Fin 2"
    "maxv (plotRing_stats exact_machine ?r2) = Fin 4"
    "maxv (plotRing_stats exact_machine ?r3) = Fin 2"
    by (simp_all add: eval_stats)
  note c1 = column_height [OF k1 j0, where m = exact_machine and tgtnum = 0
      and g = init_globals and host = "''h''" and rd = blank and color = "fg init_globals"]
  note c2 = column_height [OF k2 j0, where m = exact_machine and tgtnum = 0
      and g = init_globals and host = "''h''" and rd = blank and color = "fg init_globals"]
  note c3 = column_height [OF k3 j1, where m = exact_machine and tgtnum = 0
      and g = init_globals and host = "''h''" and rd = blank and color = "fg init_globals"]
  from c1 have l1: "DrawLine (Color 0x00 0xFF 0x00 0xFF) 171 44 171 64
     \<in> set (ops (plotRing exact_machine init_globals ?r1 ''h'' 0 blank (fg init_globals)))"
    by (simp add: M vh_exact_values positive_line_def plotColors_def windowMargin_def
        panelHeight_def targetSize_def)
  from c2 have l2: "DrawLine (Color 0x00 0xFF 0x00 0xFF) 171 55 171 64
     \<in> set (ops (plotRing exact_machine init_globals ?r2 ''h'' 0 blank (fg init_globals)))"
    by (simp add: M vh_exact_values positive_line_def plotColors_def windowMargin_def
        panelHeight_def targetSize_def)
  from c3 have l3: "DrawLine (Color 0x00 0x00 0xFF 0xFF) 172 44 172 22
     \<in> set (ops (plotRing exact_machine init_globals ?r3 ''h'' 0 blank (fg init_globals)))"
    by (simp add: M p3 vh_exact_values positive_line_def plotColors_def windowMargin_def
        panelHeight_def targetSize_def min32_def max32_def)
  from l1 l2 l3 M show ?thesis by simp
qed


end
